theory Spec2Isabelle
  imports Main "HOL-Library.Sublist"
begin

section \<open>The repository model (types.ts)\<close>

text \<open>
  The interfaces of the simulator become records. A branch name, which the
  declared type calls \<open>string\<close> but which the engine can set to \<open>undefined\<close>
  (from an array read past the end, \<open>parts[3]\<close>), is a \<open>string option\<close>, with
  \<open>None\<close> for \<open>undefined\<close>; in the two parent fields \<open>None\<close> is
  \<open>null\<close>. Timestamps are JavaScript numbers holding millisecond counts: integers,
  with the rounding of doubles where the engine adds to them (\<open>js_plus\<close>
  below).
\<close>

record Commit =
  id_c :: string
  message :: string
  parentId :: "string option"
  secondParentId :: "string option"
  timestamp :: int
  author :: string

record Branch =
  name :: "string option"
  commitId :: string

record Tag =
  name :: string
  commitId :: string

text \<open>
  HEAD is the tagged union \<open>{type: 'branch' | 'commit', ref}\<close>. The \<open>ref\<close>
  of an attached HEAD is a branch name (which \<open>git branch -M\<close> without an
  argument sets to \<open>undefined\<close>); the \<open>ref\<close> of a detached HEAD is a
  commit id.
\<close>

datatype Head = branch "string option" | commit string

record GitState =
  commits :: "Commit list"
  branches :: "Branch list"
  tags :: "Tag list"
  head :: Head

text \<open>
  What the engine reads from outside: the short ids cut from \<open>uuidv4()\<close>, the
  clock \<open>Date.now()\<close>, the clock value at module load (the timestamp of
  \<open>INITIAL_STATE\<close>) and the locale's time format. The \<open>k\<close>-th call of
  \<open>generateShortId\<close> or \<open>Date.now\<close> inside one command reads index \<open>k\<close>.
\<close>

record Env =
  generateShortId :: "nat \<Rightarrow> string"
  Date_now :: "nat \<Rightarrow> int"
  loadTime :: int
  toLocaleTimeString :: "int \<Rightarrow> string"

definition shift :: "nat \<Rightarrow> nat \<Rightarrow> Env \<Rightarrow> Env" where
  "shift i d env =
     env\<lparr>generateShortId := (\<lambda>k. generateShortId env (k + i)),
         Date_now := (\<lambda>k. Date_now env (k + d))\<rparr>"

section \<open>JavaScript helpers\<close>

text \<open>\<open>!x\<close> on a string that may be \<open>null\<close> or \<open>undefined\<close>.\<close>

definition falsy :: "string option \<Rightarrow> bool" where
  "falsy x = (case x of None \<Rightarrow> True | Some s \<Rightarrow> s = [])"

text \<open>A template literal prints \<open>undefined\<close> by name.\<close>

definition show_js :: "string option \<Rightarrow> string" where
  "show_js x = (case x of None \<Rightarrow> ''undefined'' | Some s \<Rightarrow> s)"

definition startsWith :: "string \<Rightarrow> string \<Rightarrow> bool" where
  "startsWith s p = (take (length p) s = p)"

text \<open>\<open>s.substring(a, b)\<close> for indices that are not negative: the bounds
  are clamped to the length and swapped when out of order.\<close>

definition substring :: "string \<Rightarrow> nat \<Rightarrow> nat \<Rightarrow> string" where
  "substring s a b =
     (let a' = min a (length s); b' = min b (length s);
          lo = min a' b'; hi = max a' b'
      in take (hi - lo) (drop lo s))"

text \<open>\<open>xs[i]\<close>, which is \<open>undefined\<close> past the end.\<close>

definition at :: "'a list \<Rightarrow> nat \<Rightarrow> 'a option" where
  "at xs i = (if i < length xs then Some (xs ! i) else None)"

text \<open>
  A character of a string is a code unit below 256. The whitespace of
  \<open>trim\<close> and of the pattern \<open>\s\<close> among them: tab, line feed, vertical
  tab, form feed, carriage return, space and the no-break space U+00A0. (The
  other members of the class, U+1680, U+2000 to U+200A, U+2028, U+2029,
  U+202F, U+205F, U+3000 and U+FEFF, are code units from 256 on.)
\<close>

definition is_ws :: "char \<Rightarrow> bool" where
  "is_ws c =
     (c \<in> {CHR 0x09, CHR 0x0A, CHR 0x0B, CHR 0x0C, CHR 0x0D, CHR '' '', CHR 0xA0})"

definition trim :: "string \<Rightarrow> string" where
  "trim s = rev (dropWhile is_ws (rev (dropWhile is_ws s)))"

text \<open>\<open>s.split(/\s+/)\<close>: \<open>tok\<close> is the piece being read, \<open>in_sep\<close> says
  that the last character read belonged to a separator.\<close>

fun split_ws_from :: "string \<Rightarrow> bool \<Rightarrow> string \<Rightarrow> string list" where
  "split_ws_from tok in_sep [] = [tok]"
| "split_ws_from tok in_sep (c # cs) =
     (if is_ws c then
        (if in_sep then split_ws_from [] True cs
         else tok # split_ws_from [] True cs)
      else split_ws_from (tok @ [c]) False cs)"

definition split_ws :: "string \<Rightarrow> string list" where
  "split_ws s = split_ws_from [] False s"

text \<open>\<open>s.split('&&')\<close>.\<close>

fun split_amp_from :: "string \<Rightarrow> string \<Rightarrow> string list" where
  "split_amp_from tok [] = [tok]"
| "split_amp_from tok [c] = [tok @ [c]]"
| "split_amp_from tok (c # d # ds) =
     (if c = CHR ''&'' \<and> d = CHR ''&'' then tok # split_amp_from [] ds
      else split_amp_from (tok @ [c]) (d # ds))"

definition split_amp :: "string \<Rightarrow> string list" where
  "split_amp s = split_amp_from [] s"

text \<open>\<open>xs.join(sep)\<close>.\<close>

fun join :: "string \<Rightarrow> string list \<Rightarrow> string" where
  "join sep [] = []"
| "join sep [x] = x"
| "join sep (x # y # ys) = x @ sep @ join sep (y # ys)"

text \<open>\<open>s.indexOf(c)\<close> and \<open>s.lastIndexOf(c)\<close> for a one-character
  pattern; \<open>None\<close> is the result \<open>-1\<close>.\<close>

fun indexOf :: "string \<Rightarrow> char \<Rightarrow> nat option" where
  "indexOf [] c = None"
| "indexOf (x # xs) c =
     (if x = c then Some 0 else map_option Suc (indexOf xs c))"

definition lastIndexOf :: "string \<Rightarrow> char \<Rightarrow> nat option" where
  "lastIndexOf s c =
     map_option (\<lambda>i. length s - 1 - i) (indexOf (rev s) c)"

text \<open>
  A JavaScript number is a double. A sum of two integers is exact as long as
  its magnitude is below \<open>2^53\<close>; from there on the result is the nearest
  double, which is a multiple of a power of two, and a tie goes to the even
  multiple. \<open>bitlen\<close> is the number of binary digits. (A sum beyond the
  largest double, near \<open>2^1024\<close>, is \<open>Infinity\<close> in the code; numbers of
  that size are outside this model.)
\<close>

fun bitlen :: "nat \<Rightarrow> nat" where
  "bitlen n = (if n = 0 then 0 else Suc (bitlen (n div 2)))"

declare bitlen.simps [simp del]

definition round_double :: "int \<Rightarrow> int" where
  "round_double n =
     (if \<bar>n\<bar> < 2 ^ 53 then n
      else (let q = 2 ^ (bitlen (nat \<bar>n\<bar>) - 53);
                m = \<bar>n\<bar> div q;
                r = \<bar>n\<bar> mod q;
                m' = (if 2 * r > q \<or> (2 * r = q \<and> odd m) then m + 1 else m)
            in sgn n * (m' * q)))"

text \<open>\<open>a + b\<close> on numbers that hold integers (and \<open>a - b\<close>, as
  \<open>js_plus a (- b)\<close>).\<close>

definition js_plus :: "int \<Rightarrow> int \<Rightarrow> int" where
  "js_plus a b = round_double (a + b)"

section \<open>Query helpers (gitLogic.ts)\<close>

definition INITIAL_STATE :: "Env \<Rightarrow> GitState" where
  "INITIAL_STATE env =
     \<lparr>commits = [\<lparr>id_c = ''init'', message = ''Initial commit'', parentId = None,
                   secondParentId = None, timestamp = loadTime env, author = ''User''\<rparr>],
      branches = [\<lparr>Branch.name = Some ''main'', commitId = ''init''\<rparr>],
      tags = [],
      head = branch (Some ''main'')\<rparr>"

definition getHeadCommitId :: "GitState \<Rightarrow> string" where
  "getHeadCommitId state =
     (case head state of
        commit r \<Rightarrow> r
      | branch r \<Rightarrow>
         (case find (\<lambda>b. Branch.name b = r) (branches state) of
            Some b \<Rightarrow> Branch.commitId b
          | None \<Rightarrow> ''init''))"

definition resolveRef :: "GitState \<Rightarrow> string option \<Rightarrow> string option" where
  "resolveRef state token =
     (case token of
        None \<Rightarrow> None
      | Some r \<Rightarrow>
          if r = [] then None
          else (case find (\<lambda>b. Branch.name b = Some r) (branches state) of
                  Some b \<Rightarrow> Some (Branch.commitId b)
                | None \<Rightarrow>
                   (case find (\<lambda>t. Tag.name t = r) (tags state) of
                      Some t \<Rightarrow> Some (Tag.commitId t)
                    | None \<Rightarrow>
                       (case find (\<lambda>c. id_c c = r \<or> startsWith (id_c c) r) (commits state) of
                          Some c \<Rightarrow> Some (id_c c)
                        | None \<Rightarrow>
                           if r = ''HEAD'' then Some (getHeadCommitId state) else None))))"

text \<open>
  \<open>Math.max(...list)\<close> passes every timestamp as an argument of one call; the
  limit that an engine puts on the number of arguments of a call (a
  \<open>RangeError\<close> on a list of some ten thousand commits or more) is not
  modelled.
\<close>

definition getNextTimestamp :: "Env \<Rightarrow> nat \<Rightarrow> GitState \<Rightarrow> int" where
  "getNextTimestamp env k state =
     (let lastTime = (if commits state \<noteq> [] then Max (set (map timestamp (commits state))) else 0)
      in max (Date_now env k) (js_plus lastTime 2000))"

text \<open>\<open>if (p) queue.push(p)\<close> for a parent field.\<close>

definition pushParent :: "string option \<Rightarrow> string list" where
  "pushParent p = (case p of None \<Rightarrow> [] | Some s \<Rightarrow> if s = [] then [] else [s])"

text \<open>
  The loop of \<open>isAncestor\<close>, on the queue and the visited set. Nothing in the
  definition says that it ends: a run that does not end has the value \<open>None\<close>.
\<close>

partial_function (option) isAncestor_loop ::
  "GitState \<Rightarrow> string \<Rightarrow> string list \<Rightarrow> string set \<Rightarrow> bool option" where
  "isAncestor_loop state ancestorId queue visited =
     (case queue of
        [] \<Rightarrow> Some False
      | cur # rest \<Rightarrow>
          if cur \<in> visited then isAncestor_loop state ancestorId rest visited
          else if cur = ancestorId then Some True
          else (case find (\<lambda>c. id_c c = cur) (commits state) of
                  None \<Rightarrow> isAncestor_loop state ancestorId rest (insert cur visited)
                | Some c \<Rightarrow>
                    isAncestor_loop state ancestorId
                      (rest @ pushParent (parentId c) @ pushParent (secondParentId c))
                      (insert cur visited)))"

declare isAncestor_loop.simps [code]

definition isAncestor :: "GitState \<Rightarrow> string \<Rightarrow> string \<Rightarrow> bool option" where
  "isAncestor state ancestorId descendantId =
     (if ancestorId = descendantId then Some True
      else isAncestor_loop state ancestorId [descendantId] {})"

section \<open>The command engine (gitLogic.ts)\<close>

record Result =
  newState :: GitState
  "output" :: string
  success :: bool

text \<open>The one exception the engine can raise.\<close>

datatype error = TypeError

definition headRef :: "GitState \<Rightarrow> string option" where
  "headRef state = (case head state of branch r \<Rightarrow> r | commit r \<Rightarrow> Some r)"

definition isBranch :: "Head \<Rightarrow> bool" where
  "isBranch h = (case h of branch r \<Rightarrow> True | commit r \<Rightarrow> False)"

definition quote :: string where
  "quote = [CHR 0x27]"

definition dquote :: string where
  "dquote = [CHR 0x22]"

definition newline :: string where
  "newline = [CHR 0x0A]"

text \<open>The assignment \<open>branches.map(b => b.name === n ? {...b, commitId: x} : b)\<close>
  that most handlers share.\<close>

definition moveBranch :: "string option \<Rightarrow> string \<Rightarrow> Branch list \<Rightarrow> Branch list" where
  "moveBranch n x bs = map (\<lambda>b. if Branch.name b = n then b\<lparr>Branch.commitId := x\<rparr> else b) bs"

subsection \<open>init, remote, log, add, clone, fetch\<close>

definition init_cmd :: "Env \<Rightarrow> Result" where
  "init_cmd env =
     \<lparr>newState = INITIAL_STATE env,
      output = ''Initialized empty Git repository in /project/.git/'',
      success = True\<rparr>"

definition remote_cmd :: "string list \<Rightarrow> GitState \<Rightarrow> Result" where
  "remote_cmd parts state =
     (if at parts 2 = Some ''add'' then
        (if falsy (at parts 3) \<or> falsy (at parts 4) then
           \<lparr>newState = state, output = ''usage: git remote add <name> <url>'', success = False\<rparr>
         else
           \<lparr>newState = state,
            output = ''Added remote '' @ quote @ show_js (at parts 3) @ quote @ '' as ''
                       @ quote @ show_js (at parts 4) @ quote,
            success = True\<rparr>)
      else if at parts 2 = Some ''-v'' \<or> at parts 2 = Some ''get-url'' then
        \<lparr>newState = state,
         output = ''origin  https://github.com/user/repo.git (fetch)'' @ newline
                    @ ''origin  https://github.com/user/repo.git (push)'',
         success = True\<rparr>
      else \<lparr>newState = state, output = [], success = True\<rparr>)"

text \<open>
  \<open>state.commits.sort(...)\<close> sorts the array of the snapshot in place (newest
  first, and stable), so the snapshot that \<open>log\<close> hands back holds the
  sorted list.
\<close>

definition log_cmd :: "Env \<Rightarrow> GitState \<Rightarrow> Result" where
  "log_cmd env state =
     (let sorted = sort_key (\<lambda>c. - timestamp c) (commits state);
          logOutput = join (newline @ newline)
            (map (\<lambda>c. ''commit '' @ id_c c @ newline @ ''Author: '' @ author c @ newline
                        @ ''Date: '' @ toLocaleTimeString env (timestamp c) @ newline @ newline
                        @ ''    '' @ message c) sorted)
      in \<lparr>newState = state\<lparr>commits := sorted\<rparr>,
          output = (if logOutput = [] then ''(no commits)'' else logOutput),
          success = True\<rparr>)"

definition add_cmd :: "GitState \<Rightarrow> Result" where
  "add_cmd state = \<lparr>newState = state, output = [], success = True\<rparr>"

definition clone_cmd :: "Env \<Rightarrow> Result" where
  "clone_cmd env =
     \<lparr>newState =
        \<lparr>commits =
           [\<lparr>id_c = ''c82a'', message = ''Initial public release'', parentId = None,
             secondParentId = None, timestamp = js_plus (Date_now env 0) (- 10000), author = ''Origin''\<rparr>,
            \<lparr>id_c = ''a12b'', message = ''Update README'', parentId = Some ''c82a'',
             secondParentId = None, timestamp = js_plus (Date_now env 1) (- 5000), author = ''Origin''\<rparr>],
         branches = [\<lparr>Branch.name = Some ''main'', commitId = ''a12b''\<rparr>,
                     \<lparr>Branch.name = Some ''origin/main'', commitId = ''a12b''\<rparr>],
         tags = [],
         head = branch (Some ''main'')\<rparr>,
      output = ''Cloning into '' @ quote @ ''project'' @ quote @ ''...'' @ newline
                 @ ''Remote: Enumerating objects: 5, done.'' @ newline
                 @ ''Remote: Total 5 (delta 0), reused 0 (delta 0)'' @ newline
                 @ ''Unpacking objects: 100% (5/5), done.'',
      success = True\<rparr>"

definition fetch_cmd :: "Env \<Rightarrow> GitState \<Rightarrow> Result" where
  "fetch_cmd env state =
     (case find (\<lambda>b. Branch.name b = Some ''origin/main'') (branches state) of
        None \<Rightarrow> \<lparr>newState = state, output = ''No remote found'', success = False\<rparr>
      | Some originBranch \<Rightarrow>
         (let newCommitId = generateShortId env 0;
              newCommit = \<lparr>id_c = newCommitId, message = ''Remote update'',
                           parentId = Some (Branch.commitId originBranch), secondParentId = None,
                           timestamp = getNextTimestamp env 0 state, author = ''Teammate''\<rparr>
          in \<lparr>newState = state\<lparr>commits := commits state @ [newCommit],
                                 branches := moveBranch (Some ''origin/main'') newCommitId (branches state)\<rparr>,
              output = ''From https://github.com/demo/repo'' @ newline @ ''   ''
                         @ substring (Branch.commitId originBranch) 0 4 @ ''..''
                         @ substring newCommitId 0 4 @ ''  main       -> origin/main'',
              success = True\<rparr>))"

subsection \<open>merge, pull, push\<close>

definition merge_cmd :: "Env \<Rightarrow> string list \<Rightarrow> GitState \<Rightarrow> Result option" where
  "merge_cmd env parts state =
     (let sourceName = at parts 2 in
      if falsy sourceName then
        Some \<lparr>newState = state, output = ''Merge source required'', success = False\<rparr>
      else
       (case resolveRef state sourceName of
          None \<Rightarrow> Some \<lparr>newState = state,
                         output = ''Merge source '' @ quote @ show_js sourceName @ quote @ '' not found'',
                         success = False\<rparr>
        | Some sourceCommitId \<Rightarrow>
           if sourceCommitId = [] then
             Some \<lparr>newState = state,
                   output = ''Merge source '' @ quote @ show_js sourceName @ quote @ '' not found'',
                   success = False\<rparr>
           else if \<not> isBranch (head state) then
             Some \<lparr>newState = state, output = ''You must be on a branch to merge'', success = False\<rparr>
           else
            (let currentHeadId = getHeadCommitId state in
             if sourceCommitId = currentHeadId then
               Some \<lparr>newState = state, output = ''Already up to date.'', success = True\<rparr>
             else
              (case isAncestor state currentHeadId sourceCommitId of
                 None \<Rightarrow> None
               | Some isFastForward \<Rightarrow>
                  if isFastForward then
                    Some \<lparr>newState = state\<lparr>branches :=
                                    moveBranch (headRef state) sourceCommitId (branches state)\<rparr>,
                          output = ''Fast-forward merge: '' @ show_js (headRef state) @ '' is now at ''
                                     @ substring sourceCommitId 0 7,
                          success = True\<rparr>
                  else
                   (let newCommit = \<lparr>id_c = generateShortId env 0,
                                      message = ''Merge '' @ show_js sourceName @ '' into ''
                                                  @ show_js (headRef state),
                                      parentId = Some currentHeadId,
                                      secondParentId = Some sourceCommitId,
                                      timestamp = getNextTimestamp env 0 state,
                                      author = ''User''\<rparr>
                    in Some \<lparr>newState = state\<lparr>commits := commits state @ [newCommit],
                                                 branches := moveBranch (headRef state) (id_c newCommit)
                                                               (branches state)\<rparr>,
                             output = ''Merged '' @ show_js sourceName @ '' into ''
                                        @ show_js (headRef state),
                             success = True\<rparr>)))))"

text \<open>
  \<open>pull\<close> calls the engine on the texts \<open>git fetch\<close> and
  \<open>git merge origin/main\<close>, which reach the two handlers above; the merge
  reads the ids and the clock after the ones that the fetch has used.
\<close>

definition pull_cmd :: "Env \<Rightarrow> GitState \<Rightarrow> Result option" where
  "pull_cmd env state =
     (let fetchRes = fetch_cmd env state in
      if \<not> success fetchRes then Some fetchRes
      else
       (case merge_cmd (shift 1 1 env) [''git'', ''merge'', ''origin/main''] (newState fetchRes) of
          None \<Rightarrow> None
        | Some mergeRes \<Rightarrow>
            Some \<lparr>newState = newState mergeRes,
                  output = output fetchRes @ newline @ output mergeRes,
                  success = True\<rparr>))"

definition push_cmd :: "string list \<Rightarrow> GitState \<Rightarrow> Result option" where
  "push_cmd parts state =
     (let currentBranch = headRef state in
      if \<not> isBranch (head state) then
        Some \<lparr>newState = state, output = ''fatal: You are not currently on a branch.'', success = False\<rparr>
      else
       (case find (\<lambda>b. Branch.name b = currentBranch) (branches state) of
          None \<Rightarrow> Some \<lparr>newState = state, output = ''error'', success = False\<rparr>
        | Some br \<Rightarrow>
           (let remoteName = ''origin/'' @ show_js currentBranch;
                remoteBranch = find (\<lambda>b. Branch.name b = Some remoteName) (branches state);
                pushed = \<lparr>newState = state\<lparr>branches :=
                               filter (\<lambda>b. Branch.name b \<noteq> Some remoteName) (branches state)
                                 @ [\<lparr>Branch.name = Some remoteName, commitId = Branch.commitId br\<rparr>]\<rparr>,
                           output = ''Enumerating objects: 3, done.'' @ newline
                                      @ ''To https://github.com/demo/repo.git'' @ newline @ ''   ''
                                      @ substring (Branch.commitId br) 0 7 @ ''..''
                                      @ substring (Branch.commitId br) 0 7 @ ''  ''
                                      @ show_js currentBranch @ '' -> '' @ show_js currentBranch,
                           success = True\<rparr>;
                rejected = \<lparr>newState = state,
                             output = ''! [rejected]        '' @ show_js currentBranch @ '' -> ''
                                        @ show_js currentBranch @ '' (non-fast-forward)'' @ newline
                                        @ ''hint: Updates were rejected because the tip of your current branch is behind''
                                        @ newline
                                        @ ''hint: its remote counterpart. Integrate the remote changes (e.g.''
                                        @ newline @ ''hint: '' @ quote @ ''git pull ...'' @ quote
                                        @ '') before pushing again.'',
                             success = False\<rparr>
            in case remoteBranch of
                 None \<Rightarrow> Some pushed
               | Some rb \<Rightarrow>
                  (case isAncestor state (Branch.commitId rb) (Branch.commitId br) of
                     None \<Rightarrow> None
                   | Some isFF \<Rightarrow>
                       if \<not> isFF \<and> Branch.commitId rb \<noteq> Branch.commitId br then Some rejected
                       else Some pushed))))"

subsection \<open>commit\<close>

text \<open>The \<open>map\<close> of \<open>--amend\<close> reads the clock once for every commit whose
  id is the one amended; \<open>k\<close> counts the reads.\<close>

fun amendCommits :: "Env \<Rightarrow> nat \<Rightarrow> string \<Rightarrow> string \<Rightarrow> Commit list \<Rightarrow> Commit list" where
  "amendCommits env k headId newMessage [] = []"
| "amendCommits env k headId newMessage (c # cs) =
     (if id_c c = headId then
        c\<lparr>message := newMessage, timestamp := Date_now env k\<rparr>
          # amendCommits env (Suc k) headId newMessage cs
      else c # amendCommits env k headId newMessage cs)"

text \<open>
  Without \<open>--amend\<close> the handler draws one id for a message that it then
  overwrites, a second one for the placeholder message when the text holds no
  quoted message, and one more for the commit itself.
\<close>

definition commit_cmd :: "Env \<Rightarrow> string list \<Rightarrow> GitState \<Rightarrow> Result" where
  "commit_cmd env parts state =
     (let fullCmd = join '' '' parts;
          quoteStart = indexOf fullCmd (CHR 0x22);
          quoteEnd = lastIndexOf fullCmd (CHR 0x22)
      in
      if ''--amend'' \<in> set parts then
        (let headId = getHeadCommitId state in
         case find (\<lambda>c. id_c c = headId) (commits state) of
           None \<Rightarrow> \<lparr>newState = state, output = ''Nothing to amend'', success = False\<rparr>
         | Some oldCommit \<Rightarrow>
            (let newMessage =
                   (case (quoteStart, quoteEnd) of
                      (Some qs, Some qe) \<Rightarrow>
                        if ''-m'' \<in> set parts then substring fullCmd (qs + 1) qe
                        else message oldCommit
                    | _ \<Rightarrow> message oldCommit)
             in \<lparr>newState = state\<lparr>commits := amendCommits env 0 headId newMessage (commits state)\<rparr>,
                 output = ''[detached HEAD] '' @ headId @ '' '' @ newMessage,
                 success = True\<rparr>))
      else
        (let quoted = (case (quoteStart, quoteEnd) of
                         (Some qs, Some qe) \<Rightarrow> if qe > qs then Some (qs, qe) else None
                       | _ \<Rightarrow> None);
             msg = (case quoted of
                      Some (qs, qe) \<Rightarrow> substring fullCmd (qs + 1) qe
                    | None \<Rightarrow> ''Update '' @ generateShortId env 1);
             currentHeadId = getHeadCommitId state;
             newCommit = \<lparr>id_c = generateShortId env (case quoted of Some q \<Rightarrow> 1 | None \<Rightarrow> 2),
                          message = msg, parentId = Some currentHeadId, secondParentId = None,
                          timestamp = getNextTimestamp env 0 state, author = ''User''\<rparr>
         in case head state of
              branch r \<Rightarrow>
                \<lparr>newState = state\<lparr>commits := commits state @ [newCommit],
                                   branches := moveBranch r (id_c newCommit) (branches state)\<rparr>,
                 output = ''['' @ show_js r @ ''] '' @ id_c newCommit @ '' '' @ msg,
                 success = True\<rparr>
            | commit r \<Rightarrow>
                \<lparr>newState = state\<lparr>commits := commits state @ [newCommit],
                                   head := commit (id_c newCommit)\<rparr>,
                 output = ''[detached HEAD] '' @ id_c newCommit @ '' '' @ msg,
                 success = True\<rparr>))"

subsection \<open>branch, checkout and switch\<close>

definition branch_cmd :: "string list \<Rightarrow> GitState \<Rightarrow> Result" where
  "branch_cmd parts state =
     (if at parts 2 = Some ''-M'' then
        (let newName = at parts 3; currentRef = headRef state in
         if \<not> isBranch (head state) then
           \<lparr>newState = state, output = ''Must be on a branch to rename'', success = False\<rparr>
         else
           \<lparr>newState = state\<lparr>branches := map (\<lambda>b. if Branch.name b = currentRef
                                                     then b\<lparr>Branch.name := newName\<rparr> else b)
                                              (branches state),
                              head := branch newName\<rparr>,
            output = ''Renamed branch to '' @ quote @ show_js newName @ quote,
            success = True\<rparr>)
      else
        (let branchName = at parts 2 in
         if falsy branchName then
           \<lparr>newState = state, output = ''Branch name required'', success = False\<rparr>
         else if find (\<lambda>b. Branch.name b = branchName) (branches state) \<noteq> None then
           \<lparr>newState = state,
            output = ''fatal: A branch named '' @ quote @ show_js branchName @ quote
                       @ '' already exists.'',
            success = False\<rparr>
         else
           (let startPointRef = at parts 3;
                created = (\<lambda>startCommitId.
                  \<lparr>newState = state\<lparr>branches := branches state
                       @ [\<lparr>Branch.name = branchName, commitId = startCommitId\<rparr>]\<rparr>,
                   output = ''Created branch '' @ quote @ show_js branchName @ quote,
                   success = True\<rparr>)
            in if falsy startPointRef then created (getHeadCommitId state)
               else
                (let resolved = resolveRef state startPointRef in
                 if falsy resolved then
                   \<lparr>newState = state,
                    output = ''fatal: Not a valid object name: '' @ quote @ show_js startPointRef
                               @ quote @ ''.'',
                    success = False\<rparr>
                 else created (show_js resolved)))))"

definition checkout_cmd :: "string list \<Rightarrow> GitState \<Rightarrow> Result" where
  "checkout_cmd parts state =
     (if at parts 2 = Some ''-b'' \<or> at parts 2 = Some ''-c'' then
        (let branchName = at parts 3 in
         if falsy branchName then
           \<lparr>newState = state, output = ''Branch name required'', success = False\<rparr>
         else if find (\<lambda>b. Branch.name b = branchName) (branches state) \<noteq> None then
           \<lparr>newState = state,
            output = ''fatal: A branch named '' @ quote @ show_js branchName @ quote
                       @ '' already exists.'',
            success = False\<rparr>
         else
           \<lparr>newState = state\<lparr>branches := branches state
                 @ [\<lparr>Branch.name = branchName, commitId = getHeadCommitId state\<rparr>],
               head := branch branchName\<rparr>,
            output = ''Switched to a new branch '' @ quote @ show_js branchName @ quote,
            success = True\<rparr>)
      else
        (let target = at parts 2 in
         if falsy target then
           \<lparr>newState = state, output = ''Target required'', success = False\<rparr>
         else
          (case find (\<lambda>b. Branch.name b = target) (branches state) of
             Some b \<Rightarrow>
               \<lparr>newState = state\<lparr>head := branch (Branch.name b)\<rparr>,
                output = ''Switched to branch '' @ quote @ show_js target @ quote,
                success = True\<rparr>
           | None \<Rightarrow>
              (let commitId = resolveRef state target in
               if \<not> falsy commitId then
                 \<lparr>newState = state\<lparr>head := commit (show_js commitId)\<rparr>,
                  output = ''Note: switching to '' @ quote @ show_js target @ quote
                             @ ''. You are in '' @ quote @ ''detached HEAD'' @ quote @ '' state.'',
                  success = True\<rparr>
               else
                 \<lparr>newState = state,
                  output = ''error: pathspec '' @ quote @ show_js target @ quote
                             @ '' did not match any file(s) known to git'',
                  success = False\<rparr>))))"

subsection \<open>reset\<close>

text \<open>\<open>s.split('~')\<close>.\<close>

fun split_tilde_from :: "string \<Rightarrow> string \<Rightarrow> string list" where
  "split_tilde_from tok [] = [tok]"
| "split_tilde_from tok (c # cs) =
     (if c = CHR ''~'' then tok # split_tilde_from [] cs
      else split_tilde_from (tok @ [c]) cs)"

text \<open>
  \<open>parseInt\<close> with no radix argument: leading whitespace, a sign, the
  prefix \<open>0x\<close> for base sixteen, then the longest run of digits; \<open>None\<close> is
  \<open>NaN\<close>. The value of a long run of digits is rounded to a double.
\<close>

definition digitVal :: "char \<Rightarrow> nat" where
  "digitVal c =
     (let n = (of_char c :: nat) in
      if 48 \<le> n \<and> n \<le> 57 then n - 48
      else if 97 \<le> n \<and> n \<le> 102 then n - 87
      else if 65 \<le> n \<and> n \<le> 70 then n - 55
      else 99)"

definition parseInt :: "string \<Rightarrow> int option" where
  "parseInt s =
     (let s1 = dropWhile is_ws s;
          neg = (take 1 s1 = ''-'');
          s2 = (if take 1 s1 = ''-'' \<or> take 1 s1 = ''+'' then drop 1 s1 else s1);
          hex = (take 2 s2 = ''0x'' \<or> take 2 s2 = ''0X'');
          radix = (if hex then 16 else 10);
          s3 = (if hex then drop 2 s2 else s2);
          ds = takeWhile (\<lambda>c. digitVal c < radix) s3;
          v = int (foldl (\<lambda>a c. a * radix + digitVal c) 0 ds)
      in if ds = [] then None else Some (round_double (if neg then - v else v)))"

text \<open>The loop \<open>while (count > 0 && curr)\<close> of \<open>HEAD~N\<close>, which follows first
  parents; it returns the count and the commit it stopped at. (The count is
  decremented exactly; a count from \<open>2^53\<close> on, which the code may fail to
  decrement, outlasts every chain of commits that is not a cycle.)\<close>

fun resetWalk :: "GitState \<Rightarrow> nat \<Rightarrow> string \<Rightarrow> nat \<times> string" where
  "resetWalk state 0 cur = (0, cur)"
| "resetWalk state (Suc n) cur =
     (if cur = [] then (Suc n, cur)
      else (case find (\<lambda>x. id_c x = cur) (commits state) of
              None \<Rightarrow> (Suc n, cur)
            | Some c \<Rightarrow>
               (case parentId c of
                  None \<Rightarrow> (Suc n, cur)
                | Some p \<Rightarrow> if p = [] then (Suc n, cur) else resetWalk state n p)))"

text \<open>
  \<open>actualTarget.includes('~')\<close> is evaluated whenever the target did not
  resolve; with no target at all (\<open>git reset\<close>, \<open>git reset --hard\<close>) the
  receiver is \<open>undefined\<close> and the call raises a \<open>TypeError\<close>.
\<close>

definition reset_cmd :: "string list \<Rightarrow> GitState \<Rightarrow> error + Result" where
  "reset_cmd parts state =
     (let mode = at parts 2;
          targetRef = (if \<not> falsy (at parts 3) then at parts 3 else at parts 2);
          actualTarget = (if mode = Some ''--hard'' then at parts 3
                          else if length parts = 3 then at parts 2
                          else targetRef)
      in
      if \<not> isBranch (head state) then
        Inr \<lparr>newState = state, output = ''Resetting in detached HEAD is just checkout.'',
             success = False\<rparr>
      else
       (let resolved = resolveRef state actualTarget;
            finish = (\<lambda>targetId.
              if falsy targetId then
                \<lparr>newState = state, output = ''Could not resolve '' @ show_js actualTarget,
                 success = False\<rparr>
              else
                \<lparr>newState = state\<lparr>branches :=
                      moveBranch (headRef state) (show_js targetId) (branches state)\<rparr>,
                 output = ''HEAD is now at '' @ substring (show_js targetId) 0 7,
                 success = True\<rparr>)
        in
        if \<not> falsy resolved then Inr (finish resolved)
        else
         (case actualTarget of
            None \<Rightarrow> Inl TypeError
          | Some t \<Rightarrow>
             if CHR ''~'' \<in> set t then
               (let pieces = split_tilde_from [] t;
                    base = at pieces 0;
                    countStr = show_js (at pieces 1)
                in
                if base = Some ''HEAD'' then
                  (let count = (case parseInt countStr of
                                  None \<Rightarrow> 1
                                | Some n \<Rightarrow> if n = 0 then 1 else n)
                   in
                   if count > 0 then
                     (case resetWalk state (nat count) (getHeadCommitId state) of
                        (left, cur) \<Rightarrow>
                          if left = 0 then Inr (finish (Some cur)) else Inr (finish resolved))
                   else Inr (finish resolved))
                else Inr (finish resolved))
             else Inr (finish resolved))))"

subsection \<open>revert, cherry-pick, tag\<close>

definition revert_cmd :: "Env \<Rightarrow> string list \<Rightarrow> GitState \<Rightarrow> Result" where
  "revert_cmd env parts state =
     (let targetRef = at parts 2; targetId = resolveRef state targetRef in
      if falsy targetId then
        \<lparr>newState = state, output = ''Bad revision '' @ quote @ show_js targetRef @ quote,
         success = False\<rparr>
      else
       (let currentHeadId = getHeadCommitId state;
            targetCommit = find (\<lambda>c. Some (id_c c) = targetId) (commits state);
            msg = ''Revert '' @ dquote @ show_js (map_option message targetCommit) @ dquote;
            newCommit = \<lparr>id_c = generateShortId env 0, message = msg,
                         parentId = Some currentHeadId, secondParentId = None,
                         timestamp = getNextTimestamp env 0 state, author = ''User''\<rparr>;
            newBranches = (if isBranch (head state)
                           then moveBranch (headRef state) (id_c newCommit) (branches state)
                           else branches state)
        in \<lparr>newState = state\<lparr>commits := commits state @ [newCommit], branches := newBranches\<rparr>,
            output = ''['' @ show_js (headRef state) @ ''] '' @ id_c newCommit @ '' '' @ msg,
            success = True\<rparr>))"

definition cherry_pick_cmd :: "Env \<Rightarrow> string list \<Rightarrow> GitState \<Rightarrow> Result" where
  "cherry_pick_cmd env parts state =
     (let targetRef = at parts 2; targetId = resolveRef state targetRef in
      if falsy targetId then
        \<lparr>newState = state, output = ''Bad revision'', success = False\<rparr>
      else
       (case find (\<lambda>c. Some (id_c c) = targetId) (commits state) of
          None \<Rightarrow> \<lparr>newState = state, output = ''Commit not found'', success = False\<rparr>
        | Some sourceCommit \<Rightarrow>
           (let currentHeadId = getHeadCommitId state;
                newCommit = \<lparr>id_c = generateShortId env 0, message = message sourceCommit,
                             parentId = Some currentHeadId, secondParentId = None,
                             timestamp = getNextTimestamp env 0 state, author = ''User''\<rparr>;
                newBranches = (if isBranch (head state)
                               then moveBranch (headRef state) (id_c newCommit) (branches state)
                               else branches state)
            in \<lparr>newState = state\<lparr>commits := commits state @ [newCommit],
                                   branches := newBranches\<rparr>,
                output = ''['' @ show_js (headRef state) @ ''] '' @ id_c newCommit @ '' ''
                           @ message newCommit,
                success = True\<rparr>)))"

text \<open>The tag handler reads \<open>parts[2]\<close> only; a third argument is not looked at.\<close>

definition tag_cmd :: "string list \<Rightarrow> GitState \<Rightarrow> Result" where
  "tag_cmd parts state =
     (case at parts 2 of
        None \<Rightarrow> \<lparr>newState = state, output = ''Tag name required'', success = False\<rparr>
      | Some tagName \<Rightarrow>
         if tagName = [] then
           \<lparr>newState = state, output = ''Tag name required'', success = False\<rparr>
         else
           \<lparr>newState = state\<lparr>tags := tags state
                 @ [\<lparr>Tag.name = tagName, commitId = getHeadCommitId state\<rparr>]\<rparr>,
            output = ''Created tag '' @ tagName,
            success = True\<rparr>)"

subsection \<open>rebase\<close>

text \<open>
  The two \<open>while\<close> loops of the rebase handler follow \<open>parentId\<close> with no
  guard against a cycle, so each is a partial function: \<open>None\<close> is a walk that
  never ends.
\<close>

definition parentOf :: "GitState \<Rightarrow> string \<Rightarrow> string option" where
  "parentOf state x =
     (case find (\<lambda>c. id_c c = x) (commits state) of None \<Rightarrow> None | Some c \<Rightarrow> parentId c)"

partial_function (option) getLineage ::
  "GitState \<Rightarrow> string option \<Rightarrow> string set \<Rightarrow> string set option" where
  "getLineage state cur s =
     (case cur of
        None \<Rightarrow> Some s
      | Some x \<Rightarrow> if x = [] then Some s else getLineage state (parentOf state x) (insert x s))"

partial_function (option) collectToMove ::
  "GitState \<Rightarrow> string set \<Rightarrow> string option \<Rightarrow> Commit list \<Rightarrow> Commit list option" where
  "collectToMove state baseLineage pointer commitsToMove =
     (case pointer of
        None \<Rightarrow> Some commitsToMove
      | Some p \<Rightarrow>
          if p = [] \<or> p \<in> baseLineage then Some commitsToMove
          else (case find (\<lambda>x. id_c x = p) (commits state) of
                  None \<Rightarrow> collectToMove state baseLineage None commitsToMove
                | Some c \<Rightarrow> collectToMove state baseLineage (parentId c) (commitsToMove @ [c])))"

declare getLineage.simps [code] collectToMove.simps [code]

text \<open>The \<open>for\<close> loop that copies the commits: the state is the list
  \<open>newCommits\<close> and \<open>newParentId\<close>.\<close>

fun replay :: "Env \<Rightarrow> GitState \<Rightarrow> Commit list \<Rightarrow> Commit list \<times> string \<Rightarrow> Commit list \<times> string" where
  "replay env state [] acc = acc"
| "replay env state (c # cs) (newCommits, newParentId) =
     (let copy = \<lparr>id_c = generateShortId env (length newCommits),
                   message = message c,
                   parentId = Some newParentId,
                   secondParentId = None,
                   timestamp = js_plus (getNextTimestamp env (length newCommits) state)
                                 (int (length newCommits)),
                   author = author c\<rparr>
      in replay env state cs (newCommits @ [copy], id_c copy))"

definition rebase_cmd :: "Env \<Rightarrow> string list \<Rightarrow> GitState \<Rightarrow> Result option" where
  "rebase_cmd env parts state =
     (case resolveRef state (at parts 2) of
        None \<Rightarrow> Some \<lparr>newState = state, output = ''Invalid base'', success = False\<rparr>
      | Some baseId \<Rightarrow>
         if baseId = [] then
           Some \<lparr>newState = state, output = ''Invalid base'', success = False\<rparr>
         else if \<not> isBranch (head state) then
           Some \<lparr>newState = state, output = ''Must be on branch'', success = False\<rparr>
         else
          (let currentBranchName = headRef state; currentTipId = getHeadCommitId state in
           case getLineage state (Some baseId) {} of
             None \<Rightarrow> None
           | Some baseLineage \<Rightarrow>
              (case collectToMove state baseLineage (Some currentTipId) [] of
                 None \<Rightarrow> None
               | Some collected \<Rightarrow>
                  (let commitsToMove = rev collected in
                   if commitsToMove = [] then
                     Some \<lparr>newState = state, output = ''Already up to date.'', success = True\<rparr>
                   else
                    (case replay env state commitsToMove ([], baseId) of
                       (newCommits, newParentId) \<Rightarrow>
                         Some \<lparr>newState = state\<lparr>commits := commits state @ newCommits,
                                                  branches := moveBranch currentBranchName newParentId
                                                                (branches state)\<rparr>,
                               output = ''Rebased refs/heads/'' @ show_js currentBranchName,
                               success = True\<rparr>)))))"

subsection \<open>The dispatcher\<close>

definition failed :: "GitState \<Rightarrow> string \<Rightarrow> Result" where
  "failed state text = \<lparr>newState = state, output = text, success = False\<rparr>"

definition executeGitCommand :: "Env \<Rightarrow> string \<Rightarrow> GitState \<Rightarrow> (error + Result) option" where
  "executeGitCommand env command state =
     (let parts = split_ws (trim command); cmd = at parts 0; subCmd = at parts 1 in
      if cmd \<noteq> Some ''git'' then
        Some (Inr (failed state (''Command must start with '' @ quote @ ''git'' @ quote)))
      else if subCmd = Some ''init'' then Some (Inr (init_cmd env))
      else if subCmd = Some ''remote'' then Some (Inr (remote_cmd parts state))
      else if subCmd = Some ''log'' then Some (Inr (log_cmd env state))
      else if subCmd = Some ''add'' then Some (Inr (add_cmd state))
      else if subCmd = Some ''clone'' then Some (Inr (clone_cmd env))
      else if subCmd = Some ''fetch'' then Some (Inr (fetch_cmd env state))
      else if subCmd = Some ''pull'' then map_option Inr (pull_cmd env state)
      else if subCmd = Some ''push'' then map_option Inr (push_cmd parts state)
      else if subCmd = Some ''commit'' then Some (Inr (commit_cmd env parts state))
      else if subCmd = Some ''branch'' then Some (Inr (branch_cmd parts state))
      else if subCmd = Some ''checkout'' \<or> subCmd = Some ''switch'' then
        Some (Inr (checkout_cmd parts state))
      else if subCmd = Some ''merge'' then map_option Inr (merge_cmd env parts state)
      else if subCmd = Some ''reset'' then Some (reset_cmd parts state)
      else if subCmd = Some ''revert'' then Some (Inr (revert_cmd env parts state))
      else if subCmd = Some ''cherry-pick'' then Some (Inr (cherry_pick_cmd env parts state))
      else if subCmd = Some ''tag'' then Some (Inr (tag_cmd parts state))
      else if subCmd = Some ''rebase'' then map_option Inr (rebase_cmd env parts state)
      else Some (Inr (failed state (''git: '' @ quote @ show_js subCmd @ quote
                                      @ '' is not a git command.''))))"

section \<open>The caller of the engine (App.tsx)\<close>

text \<open>
  \<open>handleCommand\<close> cuts the text at \<open>&&\<close> and runs the pieces in turn. The
  record holds what it leaves behind: the snapshot that the state updater
  returns (the snapshot the application shows from then on), the snapshot
  handed to \<open>saveToHistory\<close>, and the log entry with its type. The \<open>k\<close>-th
  piece reads the outside world \<open>envs k\<close>.
\<close>

record Handled =
  gitState :: GitState
  savedToHistory :: "GitState option"
  logEntry :: "(string \<times> string) option"

fun runCommands ::
  "(nat \<Rightarrow> Env) \<Rightarrow> nat \<Rightarrow> string list \<Rightarrow> GitState \<Rightarrow> string list
     \<Rightarrow> (error + GitState \<times> string list \<times> bool) option" where
  "runCommands envs k [] state allOutputs = Some (Inr (state, allOutputs, True))"
| "runCommands envs k (singleCmd # rest) state allOutputs =
     (case executeGitCommand (envs k) singleCmd state of
        None \<Rightarrow> None
      | Some (Inl e) \<Rightarrow> Some (Inl e)
      | Some (Inr result) \<Rightarrow>
          if success result then
            runCommands envs (Suc k) rest (newState result) (allOutputs @ [output result])
          else Some (Inr (state, allOutputs @ [output result], False)))"

definition handleCommand ::
  "(nat \<Rightarrow> Env) \<Rightarrow> string \<Rightarrow> GitState \<Rightarrow> (error + Handled) option" where
  "handleCommand envs cmd currentState =
     (if cmd = ''clear'' then
        Some (Inr \<lparr>gitState = currentState, savedToHistory = None, logEntry = None\<rparr>)
      else
       (let commands = filter (\<lambda>c. length c > 0) (map trim (split_amp cmd)) in
        case runCommands envs 0 commands currentState [] of
          None \<Rightarrow> None
        | Some (Inl e) \<Rightarrow> Some (Inl e)
        | Some (Inr (state, allOutputs, allSuccess)) \<Rightarrow>
           (let combinedOutput = join (newline @ newline) allOutputs in
            if allSuccess then
              Some (Inr \<lparr>gitState = state, savedToHistory = Some state,
                         logEntry = Some (''success'', combinedOutput)\<rparr>)
            else
              Some (Inr \<lparr>gitState = state, savedToHistory = Some currentState,
                         logEntry = Some (''error'', combinedOutput)\<rparr>))))"

section \<open>Auxiliary notions for the proofs\<close>

text \<open>A snapshot with three commits: the ids share the prefix \<open>ab\<close>, and the
  id of the last commit is a prefix of the id of the first.\<close>

definition prefix_state :: GitState where
  "prefix_state =
     \<lparr>commits =
        [\<lparr>id_c = ''abc1234'', message = ''one'', parentId = None, secondParentId = None,
          timestamp = 1000, author = ''User''\<rparr>,
         \<lparr>id_c = ''abd5678'', message = ''two'', parentId = Some ''abc1234'',
          secondParentId = None, timestamp = 3000, author = ''User''\<rparr>,
         \<lparr>id_c = ''abc'', message = ''three'', parentId = Some ''abd5678'',
          secondParentId = None, timestamp = 5000, author = ''User''\<rparr>],
      branches = [\<lparr>Branch.name = Some ''main'', commitId = ''abc''\<rparr>],
      tags = [],
      head = branch (Some ''main'')\<rparr>"

text \<open>An outside world for the examples: ids \<open>id0\<close>, \<open>id1\<close>, ..., a clock that
  ticks once per reading.\<close>

definition example_env :: Env where
  "example_env =
     \<lparr>generateShortId = (\<lambda>k. ''id'' @ [char_of (48 + k)]),
      Date_now = (\<lambda>k. 1000 + int k),
      loadTime = 0,
      toLocaleTimeString = (\<lambda>t. ''12:00:00'')\<rparr>"

text \<open>Two branches that have diverged: \<open>main\<close> at \<open>ccc\<close>, two commits after
  \<open>init\<close>, and \<open>feature\<close> at \<open>bbb\<close>, one commit after \<open>init\<close>;
  \<open>origin/main\<close> is at \<open>bbb\<close> too, and the tag \<open>base\<close> is on \<open>init\<close>.\<close>

definition diverged_state :: GitState where
  "diverged_state =
     \<lparr>commits =
        [\<lparr>id_c = ''init'', message = ''Initial commit'', parentId = None, secondParentId = None,
          timestamp = 0, author = ''User''\<rparr>,
         \<lparr>id_c = ''aaa'', message = ''A'', parentId = Some ''init'', secondParentId = None,
          timestamp = 2000, author = ''User''\<rparr>,
         \<lparr>id_c = ''bbb'', message = ''B'', parentId = Some ''init'', secondParentId = None,
          timestamp = 4000, author = ''Teammate''\<rparr>,
         \<lparr>id_c = ''ccc'', message = ''C'', parentId = Some ''aaa'', secondParentId = None,
          timestamp = 6000, author = ''Other''\<rparr>],
      branches = [\<lparr>Branch.name = Some ''main'', commitId = ''ccc''\<rparr>,
                  \<lparr>Branch.name = Some ''feature'', commitId = ''bbb''\<rparr>,
                  \<lparr>Branch.name = Some ''origin/main'', commitId = ''bbb''\<rparr>],
      tags = [\<lparr>Tag.name = ''base'', commitId = ''init''\<rparr>],
      head = branch (Some ''main'')\<rparr>"

text \<open>The same history seen from behind: \<open>main\<close> is at \<open>aaa\<close>, \<open>feature\<close> is
  two commits ahead of it at \<open>ccc\<close>, and \<open>origin/main\<close> is at \<open>init\<close>.\<close>

definition behind_state :: GitState where
  "behind_state =
     diverged_state\<lparr>branches :=
        [\<lparr>Branch.name = Some ''main'', commitId = ''aaa''\<rparr>,
         \<lparr>Branch.name = Some ''feature'', commitId = ''ccc''\<rparr>,
         \<lparr>Branch.name = Some ''origin/main'', commitId = ''init''\<rparr>]\<rparr>"




text \<open>
  Ancestry in the words of the specification: a commit is its own ancestor,
  and the ancestors of its first and of its second parent are ancestors of
  it. An id denotes the first commit of the list that carries it (ids are
  unique in a repository), and a parent field that is \<open>null\<close> or empty
  names no parent. \<open>ancestor state a d\<close> says that \<open>a\<close> is an ancestor of
  \<open>d\<close>, that is, that \<open>d\<close> is a descendant of \<open>a\<close>.
\<close>

definition parents :: "GitState \<Rightarrow> string \<Rightarrow> string set" where
  "parents state x =
     (case find (\<lambda>c. id_c c = x) (commits state) of
        None \<Rightarrow> {}
      | Some c \<Rightarrow> {p. p \<noteq> [] \<and> (parentId c = Some p \<or> secondParentId c = Some p)})"

definition parentEdges :: "GitState \<Rightarrow> (string \<times> string) set" where
  "parentEdges state = {(x, p). p \<in> parents state x}"

definition ancestor :: "GitState \<Rightarrow> string \<Rightarrow> string \<Rightarrow> bool" where
  "ancestor state a d = ((d, a) \<in> (parentEdges state)\<^sup>*)"



text \<open>The commits that the copying loop of \<open>rebase\<close> appends, without the
  accumulator: the \<open>k\<close>-th copy takes the \<open>k\<close>-th id and clock reading and
  has the copy before it (the base, for the first) as its parent.\<close>

fun copies :: "Env \<Rightarrow> GitState \<Rightarrow> nat \<Rightarrow> string \<Rightarrow> Commit list \<Rightarrow> Commit list" where
  "copies env state k pid [] = []"
| "copies env state k pid (c # cs) =
     \<lparr>id_c = generateShortId env k, message = message c, parentId = Some pid,
      secondParentId = None, timestamp = js_plus (getNextTimestamp env k state) (int k),
      author = author c\<rparr>
     # copies env state (Suc k) (generateShortId env k) cs"

text \<open>Every id that the loop of \<open>isAncestor\<close> can push: the parents named by
  some commit.\<close>

definition parentIds :: "GitState \<Rightarrow> string set" where
  "parentIds state =
     (\<Union>c \<in> set (commits state). set (pushParent (parentId c)) \<union> set (pushParent (secondParentId c)))"

section \<open>Ancestry\<close>

lemma finite_parentIds: "finite (parentIds state)"
  by (simp add: parentIds_def)

lemma find_pushParent_sub:
  assumes "find (\<lambda>c. id_c c = x) (commits state) = Some c"
  shows "set (pushParent (parentId c)) \<union> set (pushParent (secondParentId c)) \<subseteq> parentIds state"
proof -
  from assms have "c \<in> set (commits state)"
    by (auto simp: find_Some_iff)
  then show ?thesis
    unfolding parentIds_def by blast
qed

lemma isAncestor_loop_total:
  "\<exists>b. isAncestor_loop state a queue visited = Some b"
proof (induction "3 * card ((parentIds state \<union> set queue) - visited) + length queue"
       arbitrary: queue visited rule: less_induct)
  case less
  show ?case
  proof (cases queue)
    case Nil
    then show ?thesis by (subst isAncestor_loop.simps) auto
  next
    case (Cons cur rest)
    have fin: "finite ((parentIds state \<union> set queue) - visited)"
      by (simp add: finite_parentIds)
    show ?thesis
    proof (cases "cur \<in> visited")
      case True
      have "(parentIds state \<union> set rest) - visited \<subseteq> (parentIds state \<union> set queue) - visited"
        using Cons by auto
      then have "card ((parentIds state \<union> set rest) - visited)
                   \<le> card ((parentIds state \<union> set queue) - visited)"
        using fin by (rule card_mono[rotated])
      then have "3 * card ((parentIds state \<union> set rest) - visited) + length rest
                   < 3 * card ((parentIds state \<union> set queue) - visited) + length queue"
        using Cons by simp
      from less[OF this] obtain b where "isAncestor_loop state a rest visited = Some b" ..
      then show ?thesis
        using Cons True by (subst isAncestor_loop.simps) simp
    next
      case notvis: False
      show ?thesis
      proof (cases "cur = a")
        case True
        then show ?thesis
          using Cons notvis by (subst isAncestor_loop.simps) auto
      next
        case nota: False
        have step: "\<exists>b. isAncestor_loop state a (rest @ new) (insert cur visited) = Some b"
          if sub: "set new \<subseteq> parentIds state" and len: "length new \<le> 2" for new
        proof -
          have ss: "(parentIds state \<union> set (rest @ new)) - insert cur visited
                      \<subseteq> ((parentIds state \<union> set queue) - visited) - {cur}"
            using Cons sub by auto
          have curin: "cur \<in> (parentIds state \<union> set queue) - visited"
            using Cons notvis by simp
          have "card ((parentIds state \<union> set (rest @ new)) - insert cur visited)
                  \<le> card (((parentIds state \<union> set queue) - visited) - {cur})"
            using ss fin by (intro card_mono) auto
          also have "\<dots> < card ((parentIds state \<union> set queue) - visited)"
            using curin fin by (intro card_Diff1_less) auto
          finally have "3 * card ((parentIds state \<union> set (rest @ new)) - insert cur visited)
                          + length (rest @ new)
                        < 3 * card ((parentIds state \<union> set queue) - visited) + length queue"
            using Cons len by simp
          from less[OF this] show ?thesis .
        qed
        show ?thesis
        proof (cases "find (\<lambda>c. id_c c = cur) (commits state)")
          case None
          from step[of "[]"] obtain b where
            "isAncestor_loop state a rest (insert cur visited) = Some b" by auto
          then show ?thesis
            using Cons notvis nota None by (subst isAncestor_loop.simps) simp
        next
          case (Some c)
          have "set (pushParent (parentId c) @ pushParent (secondParentId c)) \<subseteq> parentIds state"
            using find_pushParent_sub[OF Some] by simp
          moreover have "length (pushParent (parentId c) @ pushParent (secondParentId c)) \<le> 2"
            by (auto simp: pushParent_def split: option.splits)
          ultimately obtain b where
            "isAncestor_loop state a
               (rest @ pushParent (parentId c) @ pushParent (secondParentId c))
               (insert cur visited) = Some b"
            using step by blast
          then show ?thesis
            using Cons notvis nota Some by (subst isAncestor_loop.simps) simp
        qed
      qed
    qed
  qed
qed

lemma isAncestor_total: "\<exists>b. isAncestor state a d = Some b"
  using isAncestor_loop_total by (auto simp: isAncestor_def)

lemma isAncestor_same: "isAncestor state x x = Some True"
  by (simp add: isAncestor_def)

text \<open>
  Claim C9. \<open>isAncestor\<close> answers true when asked about a commit and itself,
  and on every snapshot and every pair of ids the breadth-first walk ends with
  an answer, whatever the parent edges are (diamonds, dangling or repeated
  ids): the ids not yet visited shrink with every commit expanded.
\<close>

theorem isAncestor_reflexive_and_total:
  "isAncestor state x x = Some True \<and> (\<exists>b. isAncestor state a d = Some b)"
  using isAncestor_loop_total by (auto simp: isAncestor_def)

section \<open>Reference resolution\<close>

lemma find_filter_hd:
  "find P xs = (case filter P xs of [] \<Rightarrow> None | x # _ \<Rightarrow> Some x)"
  by (induction xs) auto

lemma startsWith_prefix: "startsWith s p = prefix p s"
  by (auto simp: startsWith_def prefix_def) (metis append_eq_conv_conj)

lemma exact_or_prefix: "(s = p \<or> startsWith s p) = prefix p s"
  by (auto simp: startsWith_prefix)

text \<open>
  Claim C3, as the code has it. A token that is not empty resolves to the
  first branch of that name; failing that to the first tag of that name;
  failing that to the first commit, in list order, whose id the token is a
  prefix of (the id itself included: an exact match has no priority, and the
  prefix need not single out one commit); failing that, the token
  \<open>HEAD\<close> resolves to the HEAD commit; anything else, and the empty token,
  is not found.
\<close>

theorem resolveRef_first_match:
  "resolveRef state (Some r) =
     (if r = [] then None
      else case filter (\<lambda>b. Branch.name b = Some r) (branches state) of
        b # _ \<Rightarrow> Some (Branch.commitId b)
      | [] \<Rightarrow>
         (case filter (\<lambda>t. Tag.name t = r) (tags state) of
            t # _ \<Rightarrow> Some (Tag.commitId t)
          | [] \<Rightarrow>
             (case filter (\<lambda>c. prefix r (id_c c)) (commits state) of
                c # _ \<Rightarrow> Some (id_c c)
              | [] \<Rightarrow> if r = ''HEAD'' then Some (getHeadCommitId state) else None)))"
  by (simp add: resolveRef_def find_filter_hd exact_or_prefix split: list.splits)

text \<open>
  Claim C3 as stated fails. In \<open>prefix_state\<close> the token \<open>ab\<close> is a prefix of
  three different commit ids and still resolves, to the first of them; and the
  token \<open>abc\<close>, which is the exact id of the third commit, resolves to the
  first commit, whose id it is a prefix of.
\<close>

theorem resolveRef_prefix_counterexample:
  "resolveRef prefix_state (Some ''ab'') = Some ''abc1234''
   \<and> length (filter (\<lambda>c. startsWith (id_c c) ''ab'') (commits prefix_state)) = 3
   \<and> resolveRef prefix_state (Some ''abc'') = Some ''abc1234''
   \<and> find (\<lambda>c. id_c c = ''abc'') (commits prefix_state) \<noteq> None"
  by (simp add: resolveRef_def prefix_state_def startsWith_def)

section \<open>Ancestry along the parent edges\<close>

lemma set_pushParent: "set (pushParent x) = {p. p \<noteq> [] \<and> x = Some p}"
  by (auto simp: pushParent_def split: option.splits)

lemma parents_find:
  "find (\<lambda>c. id_c c = x) (commits state) = None \<Longrightarrow> parents state x = {}"
  "find (\<lambda>c. id_c c = x) (commits state) = Some c \<Longrightarrow>
     parents state x = set (pushParent (parentId c) @ pushParent (secondParentId c))"
  by (auto simp: parents_def set_pushParent)

lemma parentEdges_Image: "parentEdges state `` {x} = parents state x"
  by (auto simp: parentEdges_def)

lemma reach_insert:
  "r\<^sup>* `` (insert x (r `` {x} \<union> S)) = r\<^sup>* `` (insert x S)"
proof -
  have "r\<^sup>* `` (r `` {x}) \<subseteq> r\<^sup>* `` {x}"
    by (auto intro: converse_rtrancl_into_rtrancl)
  then show ?thesis by blast
qed

text \<open>
  The invariant of the loop: the candidate has not been visited, and every
  parent of a visited id is visited or waits in the queue. Under it the loop
  answers whether the candidate can be reached from the queue or the visited
  ids.
\<close>

lemma isAncestor_loop_reach:
  assumes "a \<notin> visited"
    and "\<forall>v\<in>visited. parents state v \<subseteq> visited \<union> set queue"
  shows "isAncestor_loop state a queue visited
           = Some (a \<in> (parentEdges state)\<^sup>* `` (set queue \<union> visited))"
  using assms
proof (induction "3 * card ((parentIds state \<union> set queue) - visited) + length queue"
       arbitrary: queue visited rule: less_induct)
  case less
  let ?E = "parentEdges state"
  show ?case
  proof (cases queue)
    case Nil
    have "a \<notin> ?E\<^sup>* `` visited"
    proof
      assume "a \<in> ?E\<^sup>* `` visited"
      then obtain v where v: "v \<in> visited" and r: "(v, a) \<in> ?E\<^sup>*" by blast
      from r v have "a \<in> visited"
      proof (induction rule: rtrancl_induct)
        case base
        then show ?case .
      next
        case (step y z)
        then have "y \<in> visited" by simp
        moreover from step(2) have "z \<in> parents state y" by (simp add: parentEdges_def)
        ultimately show ?case using less.prems(2) Nil by auto
      qed
      with less.prems(1) show False by simp
    qed
    then show ?thesis using Nil by (subst isAncestor_loop.simps) simp
  next
    case (Cons cur rest)
    have fin: "finite ((parentIds state \<union> set queue) - visited)"
      by (simp add: finite_parentIds)
    show ?thesis
    proof (cases "cur \<in> visited")
      case True
      have "(parentIds state \<union> set rest) - visited \<subseteq> (parentIds state \<union> set queue) - visited"
        using Cons by auto
      then have "card ((parentIds state \<union> set rest) - visited)
                   \<le> card ((parentIds state \<union> set queue) - visited)"
        using fin by (rule card_mono[rotated])
      then have m: "3 * card ((parentIds state \<union> set rest) - visited) + length rest
                   < 3 * card ((parentIds state \<union> set queue) - visited) + length queue"
        using Cons by simp
      have inv: "\<forall>v\<in>visited. parents state v \<subseteq> visited \<union> set rest"
        using less.prems(2) Cons True by auto
      have same: "set queue \<union> visited = set rest \<union> visited"
        using Cons True by auto
      from less.hyps[OF m less.prems(1) inv] show ?thesis
        using Cons True same by (subst isAncestor_loop.simps) simp
    next
      case notvis: False
      show ?thesis
      proof (cases "cur = a")
        case True
        then have "a \<in> ?E\<^sup>* `` (set queue \<union> visited)"
          using Cons by auto
        then show ?thesis
          using Cons notvis True by (subst isAncestor_loop.simps) simp
      next
        case nota: False
        have step: "isAncestor_loop state a (rest @ new) (insert cur visited)
                      = Some (a \<in> ?E\<^sup>* `` (set queue \<union> visited))"
          if sub: "set new \<subseteq> parentIds state" and len: "length new \<le> 2"
            and par: "parents state cur = set new" for new
        proof -
          have ss: "(parentIds state \<union> set (rest @ new)) - insert cur visited
                      \<subseteq> ((parentIds state \<union> set queue) - visited) - {cur}"
            using Cons sub by auto
          have curin: "cur \<in> (parentIds state \<union> set queue) - visited"
            using Cons notvis by simp
          have "card ((parentIds state \<union> set (rest @ new)) - insert cur visited)
                  \<le> card (((parentIds state \<union> set queue) - visited) - {cur})"
            using ss fin by (intro card_mono) auto
          also have "\<dots> < card ((parentIds state \<union> set queue) - visited)"
            using curin fin by (intro card_Diff1_less) auto
          finally have m: "3 * card ((parentIds state \<union> set (rest @ new)) - insert cur visited)
                          + length (rest @ new)
                        < 3 * card ((parentIds state \<union> set queue) - visited) + length queue"
            using Cons len by simp
          have i1: "a \<notin> insert cur visited"
            using less.prems(1) nota by simp
          have i2: "\<forall>v\<in>insert cur visited. parents state v \<subseteq> insert cur visited \<union> set (rest @ new)"
            using less.prems(2) Cons par by auto
          have "set (rest @ new) \<union> insert cur visited
                  = insert cur (?E `` {cur} \<union> (set rest \<union> visited))"
            using par by (auto simp: parentEdges_Image)
          then have "?E\<^sup>* `` (set (rest @ new) \<union> insert cur visited)
                       = ?E\<^sup>* `` (insert cur (set rest \<union> visited))"
            by (simp only: reach_insert)
          also have "insert cur (set rest \<union> visited) = set queue \<union> visited"
            using Cons by auto
          finally show ?thesis
            using less.hyps[OF m i1 i2] by simp
        qed
        show ?thesis
        proof (cases "find (\<lambda>c. id_c c = cur) (commits state)")
          case None
          from step[of "[]"] parents_find(1)[OF None]
          have "isAncestor_loop state a rest (insert cur visited)
                  = Some (a \<in> ?E\<^sup>* `` (set queue \<union> visited))" by simp
          then show ?thesis
            using Cons notvis nota None by (subst isAncestor_loop.simps) simp
        next
          case (Some c)
          have "set (pushParent (parentId c) @ pushParent (secondParentId c)) \<subseteq> parentIds state"
            using find_pushParent_sub[OF Some] by simp
          moreover have "length (pushParent (parentId c) @ pushParent (secondParentId c)) \<le> 2"
            by (auto simp: pushParent_def split: option.splits)
          ultimately have
            "isAncestor_loop state a
               (rest @ pushParent (parentId c) @ pushParent (secondParentId c))
               (insert cur visited) = Some (a \<in> ?E\<^sup>* `` (set queue \<union> visited))"
            using step parents_find(2)[OF Some] by blast
          then show ?thesis
            using Cons notvis nota Some by (subst isAncestor_loop.simps) simp
        qed
      qed
    qed
  qed
qed

text \<open>\<open>isAncestor\<close> decides ancestry: it answers true exactly when the first id
  can be reached from the second along parent edges.\<close>

lemma isAncestor_ancestor: "isAncestor state a d = Some (ancestor state a d)"
proof (cases "a = d")
  case True
  then show ?thesis by (simp add: isAncestor_def ancestor_def)
next
  case False
  from isAncestor_loop_reach[of a "{}" state "[d]"]
  have "isAncestor_loop state a [d] {} = Some (a \<in> (parentEdges state)\<^sup>* `` {d})"
    by simp
  then show ?thesis
    using False by (simp add: isAncestor_def ancestor_def)
qed

lemma ancestor_refl: "ancestor state x x"
  by (simp add: ancestor_def)

text \<open>Where the ids of the commits are pairwise different, the parents of a
  commit's id are the parents that the commit names.\<close>

lemma parents_distinct_ids:
  assumes "distinct (map id_c (commits state))" and "c \<in> set (commits state)"
  shows "parents state (id_c c)
           = {p. p \<noteq> [] \<and> (parentId c = Some p \<or> secondParentId c = Some p)}"
proof -
  have "find (\<lambda>x. id_c x = id_c c) (commits state) = Some c"
    using assms
  proof (induction "commits state" arbitrary: state)
    case Nil
    then show ?case by simp
  next
    case (Cons x xs)
    from Cons(2)[symmetric] Cons(3,4)
    show ?case
      using Cons(1)[of "state\<lparr>commits := xs\<rparr>"] by (auto simp: image_iff)
  qed
  then show ?thesis by (simp add: parents_def)
qed

section \<open>merge\<close>

lemma exec_merge:
  assumes "split_ws (trim command) = ''git'' # ''merge'' # rest"
  shows "executeGitCommand env command state
           = map_option Inr (merge_cmd env (''git'' # ''merge'' # rest) state)"
  using assms by (simp add: executeGitCommand_def at_def)

lemma find_moveBranch:
  "find (\<lambda>x. Branch.name x = n) (moveBranch n c bs)
     = map_option (\<lambda>b. b\<lparr>Branch.commitId := c\<rparr>) (find (\<lambda>x. Branch.name x = n) bs)"
  by (induction bs) (auto simp: moveBranch_def)

lemma getHead_moveBranch:
  assumes "head state = branch b" "find (\<lambda>x. Branch.name x = b) (branches state) \<noteq> None"
  shows "getHeadCommitId (state\<lparr>commits := cs, branches := moveBranch b c (branches state)\<rparr>) = c"
    and "getHeadCommitId (state\<lparr>branches := moveBranch b c (branches state)\<rparr>) = c"
  using assms by (auto simp: getHeadCommitId_def find_moveBranch)

lemma merge_cmd_fails:
  assumes "falsy (resolveRef state (Some r)) \<or> \<not> isBranch (head state)"
  shows "\<exists>text. merge_cmd env (''git'' # ''merge'' # r # rest) state
           = Some \<lparr>newState = state, output = text, success = False\<rparr>"
proof -
  have a2: "at (''git'' # ''merge'' # r # rest) 2 = Some r" by (simp add: at_def)
  show ?thesis
  proof (cases "resolveRef state (Some r)")
    case None
    then show ?thesis
      unfolding merge_cmd_def a2 Let_def by (simp add: falsy_def)
  next
    case (Some T)
    show ?thesis
    proof (cases "T = []")
      case True
      with Some show ?thesis
        unfolding merge_cmd_def a2 Let_def by (simp add: falsy_def)
    next
      case False
      with Some assms have "\<not> isBranch (head state)" by (simp add: falsy_def)
      with Some False show ?thesis
        unfolding merge_cmd_def a2 Let_def by (simp add: falsy_def)
    qed
  qed
qed

lemma merge_cmd_attached:
  assumes "head state = branch b" "resolveRef state (Some r) = Some T" "T \<noteq> []"
  shows "merge_cmd env (''git'' # ''merge'' # r # rest) state =
     (if T = getHeadCommitId state then
        Some \<lparr>newState = state, output = ''Already up to date.'', success = True\<rparr>
      else if ancestor state (getHeadCommitId state) T then
        Some \<lparr>newState = state\<lparr>branches := moveBranch b T (branches state)\<rparr>,
              output = ''Fast-forward merge: '' @ show_js b @ '' is now at '' @ substring T 0 7,
              success = True\<rparr>
      else
        Some \<lparr>newState = state\<lparr>commits := commits state @
                  [\<lparr>id_c = generateShortId env 0,
                    message = ''Merge '' @ r @ '' into '' @ show_js b,
                    parentId = Some (getHeadCommitId state), secondParentId = Some T,
                    timestamp = getNextTimestamp env 0 state, author = ''User''\<rparr>],
                branches := moveBranch b (generateShortId env 0) (branches state)\<rparr>,
              output = ''Merged '' @ r @ '' into '' @ show_js b,
              success = True\<rparr>)"
proof -
  have r: "r \<noteq> []" using assms(2) by (auto simp: resolveRef_def)
  have a2: "at (''git'' # ''merge'' # r # rest) 2 = Some r" by (simp add: at_def)
  show ?thesis
    unfolding merge_cmd_def a2 Let_def isAncestor_ancestor
    using assms r
    by (simp add: falsy_def isBranch_def headRef_def show_js_def)
qed

text \<open>
  Claim C2. Let the command read \<open>git merge r\<close>. If \<open>r\<close> does not resolve,
  or HEAD is detached, the engine returns a failure with the snapshot
  unchanged. If HEAD is attached to an existing branch \<open>b\<close> and \<open>r\<close>
  resolves to the commit \<open>T\<close>, the engine returns a success and: when \<open>T\<close> is
  the HEAD commit, the snapshot is unchanged; else when the HEAD commit is an
  ancestor of \<open>T\<close> (it can be reached from \<open>T\<close> along parent edges), only
  the branch pointer of \<open>b\<close> moves, to \<open>T\<close>, and the commit list is the same;
  otherwise exactly one commit is appended, with first parent the old HEAD
  commit and second parent \<open>T\<close>, and \<open>b\<close> points to it.
\<close>

theorem merge_behaviour:
  assumes "split_ws (trim command) = ''git'' # ''merge'' # r # rest"
  shows
    "(falsy (resolveRef state (Some r)) \<or> \<not> isBranch (head state) \<longrightarrow>
        (\<exists>text. executeGitCommand env command state
                   = Some (Inr \<lparr>newState = state, output = text, success = False\<rparr>)))
     \<and> (\<forall>b T. head state = branch b
               \<and> find (\<lambda>x. Branch.name x = b) (branches state) \<noteq> None
               \<and> resolveRef state (Some r) = Some T \<and> T \<noteq> [] \<longrightarrow>
          (\<exists>res. executeGitCommand env command state = Some (Inr res) \<and> success res \<and>
            (if T = getHeadCommitId state then newState res = state
             else if ancestor state (getHeadCommitId state) T then
               newState res = state\<lparr>branches := moveBranch b T (branches state)\<rparr>
               \<and> commits (newState res) = commits state
               \<and> getHeadCommitId (newState res) = T
             else
               (\<exists>c. newState res = state\<lparr>commits := commits state @ [c],
                                          branches := moveBranch b (id_c c) (branches state)\<rparr>
                    \<and> parentId c = Some (getHeadCommitId state)
                    \<and> secondParentId c = Some T
                    \<and> getHeadCommitId (newState res) = id_c c))))"
proof (intro conjI impI allI)
  assume "falsy (resolveRef state (Some r)) \<or> \<not> isBranch (head state)"
  from merge_cmd_fails[OF this, of env rest]
  show "\<exists>text. executeGitCommand env command state
                  = Some (Inr \<lparr>newState = state, output = text, success = False\<rparr>)"
    by (auto simp: exec_merge[OF assms])
next
  fix b T
  assume h: "head state = branch b
               \<and> find (\<lambda>x. Branch.name x = b) (branches state) \<noteq> None
               \<and> resolveRef state (Some r) = Some T \<and> T \<noteq> []"
  then have hd: "head state = branch b"
    and ex: "find (\<lambda>x. Branch.name x = b) (branches state) \<noteq> None"
    and rs: "resolveRef state (Some r) = Some T" and ne: "T \<noteq> []"
    by simp_all
  note m = merge_cmd_attached[OF hd rs ne, of env rest]
  note g = getHead_moveBranch[OF hd ex]
  show "\<exists>res. executeGitCommand env command state = Some (Inr res) \<and> success res \<and>
            (if T = getHeadCommitId state then newState res = state
             else if ancestor state (getHeadCommitId state) T then
               newState res = state\<lparr>branches := moveBranch b T (branches state)\<rparr>
               \<and> commits (newState res) = commits state
               \<and> getHeadCommitId (newState res) = T
             else
               (\<exists>c. newState res = state\<lparr>commits := commits state @ [c],
                                          branches := moveBranch b (id_c c) (branches state)\<rparr>
                    \<and> parentId c = Some (getHeadCommitId state)
                    \<and> secondParentId c = Some T
                    \<and> getHeadCommitId (newState res) = id_c c))"
  proof (cases "T = getHeadCommitId state")
    case True
    then show ?thesis by (simp add: exec_merge[OF assms] m)
  next
    case notsame: False
    show ?thesis
    proof (cases "ancestor state (getHeadCommitId state) T")
      case True
      then show ?thesis
        using notsame by (simp add: exec_merge[OF assms] m g)
    next
      case False
      let ?c = "\<lparr>id_c = generateShortId env 0,
                 message = ''Merge '' @ r @ '' into '' @ show_js b,
                 parentId = Some (getHeadCommitId state), secondParentId = Some T,
                 timestamp = getNextTimestamp env 0 state, author = ''User''\<rparr>"
      show ?thesis
        using notsame False
          getHead_moveBranch(1)[OF hd ex, where cs = "commits state @ [?c]"
                                          and c = "generateShortId env 0"]
        by (simp add: exec_merge[OF assms] m) (rule exI[of _ ?c], simp)
    qed
  qed
qed

theorem merge_behaviour_witness:
  "split_ws (trim ''git merge feature'') = [''git'', ''merge'', ''feature'']
   \<and> resolveRef diverged_state (Some ''feature'') = Some ''bbb''
   \<and> getHeadCommitId diverged_state = ''ccc''
   \<and> \<not> ancestor diverged_state ''ccc'' ''bbb''
   \<and> (\<exists>res c. executeGitCommand example_env ''git merge feature'' diverged_state = Some (Inr res)
         \<and> success res
         \<and> newState res = diverged_state\<lparr>commits := commits diverged_state @ [c],
               branches := moveBranch (Some ''main'') (id_c c) (branches diverged_state)\<rparr>
         \<and> parentId c = Some ''ccc'' \<and> secondParentId c = Some ''bbb''
         \<and> getHeadCommitId (newState res) = id_c c)
   \<and> resolveRef behind_state (Some ''feature'') = Some ''ccc''
   \<and> getHeadCommitId behind_state = ''aaa''
   \<and> ancestor behind_state ''aaa'' ''ccc''
   \<and> (\<exists>res. executeGitCommand example_env ''git merge feature'' behind_state = Some (Inr res)
         \<and> success res
         \<and> newState res = behind_state\<lparr>branches :=
               moveBranch (Some ''main'') ''ccc'' (branches behind_state)\<rparr>
         \<and> commits (newState res) = commits behind_state
         \<and> getHeadCommitId (newState res) = ''ccc'')
   \<and> split_ws (trim ''git merge main'') = [''git'', ''merge'', ''main'']
   \<and> resolveRef diverged_state (Some ''main'') = Some ''ccc''
   \<and> (\<exists>res. executeGitCommand example_env ''git merge main'' diverged_state = Some (Inr res)
         \<and> success res \<and> newState res = diverged_state)
   \<and> split_ws (trim ''git merge nowhere'') = [''git'', ''merge'', ''nowhere'']
   \<and> resolveRef diverged_state (Some ''nowhere'') = None
   \<and> (\<exists>msg. executeGitCommand example_env ''git merge nowhere'' diverged_state
         = Some (Inr \<lparr>newState = diverged_state, output = msg, success = False\<rparr>))"
proof -
  have p: "split_ws (trim ''git merge feature'') = ''git'' # ''merge'' # ''feature'' # []"
    and pm: "split_ws (trim ''git merge main'') = ''git'' # ''merge'' # ''main'' # []"
    and pn: "split_ws (trim ''git merge nowhere'') = ''git'' # ''merge'' # ''nowhere'' # []"
    by (simp_all add: split_ws_def trim_def is_ws_def)
  have h: "head diverged_state = branch (Some ''main'')"
    and hb: "head behind_state = branch (Some ''main'')"
    by (simp_all add: diverged_state_def behind_state_def)
  have f: "find (\<lambda>x. Branch.name x = Some ''main'') (branches diverged_state) \<noteq> None"
    and fb: "find (\<lambda>x. Branch.name x = Some ''main'') (branches behind_state) \<noteq> None"
    by (simp_all add: diverged_state_def behind_state_def)
  have r: "resolveRef diverged_state (Some ''feature'') = Some ''bbb''"
    and rb: "resolveRef behind_state (Some ''feature'') = Some ''ccc''"
    and rm: "resolveRef diverged_state (Some ''main'') = Some ''ccc''"
    and rn: "resolveRef diverged_state (Some ''nowhere'') = None"
    by (simp_all add: resolveRef_def diverged_state_def behind_state_def startsWith_def)
  have g: "getHeadCommitId diverged_state = ''ccc''"
    and gb: "getHeadCommitId behind_state = ''aaa''"
    by (simp_all add: getHeadCommitId_def diverged_state_def behind_state_def)
  have "isAncestor diverged_state ''ccc'' ''bbb'' = Some False"
    by (simp add: isAncestor_def isAncestor_loop.simps diverged_state_def pushParent_def)
  then have a: "\<not> ancestor diverged_state ''ccc'' ''bbb''"
    by (simp add: isAncestor_ancestor)
  have "isAncestor behind_state ''aaa'' ''ccc'' = Some True"
    by (simp add: isAncestor_def isAncestor_loop.simps diverged_state_def behind_state_def
          pushParent_def)
  then have ab: "ancestor behind_state ''aaa'' ''ccc''"
    by (simp add: isAncestor_ancestor)
  from merge_behaviour[OF p, of diverged_state example_env] h f r
  have "\<exists>res. executeGitCommand example_env ''git merge feature'' diverged_state = Some (Inr res)
          \<and> success res \<and>
            (if ''bbb'' = getHeadCommitId diverged_state then newState res = diverged_state
             else if ancestor diverged_state (getHeadCommitId diverged_state) ''bbb'' then
               newState res = diverged_state\<lparr>branches := moveBranch (Some ''main'') ''bbb'' (branches diverged_state)\<rparr>
               \<and> commits (newState res) = commits diverged_state
               \<and> getHeadCommitId (newState res) = ''bbb''
             else
               (\<exists>c. newState res = diverged_state\<lparr>commits := commits diverged_state @ [c],
                                          branches := moveBranch (Some ''main'') (id_c c) (branches diverged_state)\<rparr>
                    \<and> parentId c = Some (getHeadCommitId diverged_state)
                    \<and> secondParentId c = Some ''bbb''
                    \<and> getHeadCommitId (newState res) = id_c c))"
    by blast
  with g a have e: "\<exists>res c. executeGitCommand example_env ''git merge feature'' diverged_state = Some (Inr res)
         \<and> success res
         \<and> newState res = diverged_state\<lparr>commits := commits diverged_state @ [c],
               branches := moveBranch (Some ''main'') (id_c c) (branches diverged_state)\<rparr>
         \<and> parentId c = Some ''ccc'' \<and> secondParentId c = Some ''bbb''
         \<and> getHeadCommitId (newState res) = id_c c"
    by auto
  from merge_behaviour[OF p, of behind_state example_env] hb fb rb
  have "\<exists>res. executeGitCommand example_env ''git merge feature'' behind_state = Some (Inr res)
          \<and> success res \<and>
            (if ''ccc'' = getHeadCommitId behind_state then newState res = behind_state
             else if ancestor behind_state (getHeadCommitId behind_state) ''ccc'' then
               newState res = behind_state\<lparr>branches := moveBranch (Some ''main'') ''ccc'' (branches behind_state)\<rparr>
               \<and> commits (newState res) = commits behind_state
               \<and> getHeadCommitId (newState res) = ''ccc''
             else
               (\<exists>c. newState res = behind_state\<lparr>commits := commits behind_state @ [c],
                                          branches := moveBranch (Some ''main'') (id_c c) (branches behind_state)\<rparr>
                    \<and> parentId c = Some (getHeadCommitId behind_state)
                    \<and> secondParentId c = Some ''ccc''
                    \<and> getHeadCommitId (newState res) = id_c c))"
    by blast
  with gb ab have eb: "\<exists>res. executeGitCommand example_env ''git merge feature'' behind_state = Some (Inr res)
         \<and> success res
         \<and> newState res = behind_state\<lparr>branches :=
               moveBranch (Some ''main'') ''ccc'' (branches behind_state)\<rparr>
         \<and> commits (newState res) = commits behind_state
         \<and> getHeadCommitId (newState res) = ''ccc''"
    by auto
  from merge_behaviour[OF pm, of diverged_state example_env] h f rm
  have "\<exists>res. executeGitCommand example_env ''git merge main'' diverged_state = Some (Inr res)
          \<and> success res \<and>
            (if ''ccc'' = getHeadCommitId diverged_state then newState res = diverged_state
             else if ancestor diverged_state (getHeadCommitId diverged_state) ''ccc'' then
               newState res = diverged_state\<lparr>branches := moveBranch (Some ''main'') ''ccc'' (branches diverged_state)\<rparr>
               \<and> commits (newState res) = commits diverged_state
               \<and> getHeadCommitId (newState res) = ''ccc''
             else
               (\<exists>c. newState res = diverged_state\<lparr>commits := commits diverged_state @ [c],
                                          branches := moveBranch (Some ''main'') (id_c c) (branches diverged_state)\<rparr>
                    \<and> parentId c = Some (getHeadCommitId diverged_state)
                    \<and> secondParentId c = Some ''ccc''
                    \<and> getHeadCommitId (newState res) = id_c c))"
    by blast
  with g have em: "\<exists>res. executeGitCommand example_env ''git merge main'' diverged_state = Some (Inr res)
         \<and> success res \<and> newState res = diverged_state"
    by auto
  from merge_behaviour[OF pn, of diverged_state example_env] rn
  have en: "\<exists>msg. executeGitCommand example_env ''git merge nowhere'' diverged_state
         = Some (Inr \<lparr>newState = diverged_state, output = msg, success = False\<rparr>)"
    by (simp add: falsy_def)
  from p pm pn r g a e rb gb ab eb rm em rn en show ?thesis
    by simp
qed

section \<open>pull\<close>

text \<open>The two calls that \<open>pull\<close> makes on the engine are calls of the fetch
  handler and of the merge handler, as \<open>pull_cmd\<close> has them.\<close>

lemma exec_fetch_text:
  "executeGitCommand env ''git fetch'' state = Some (Inr (fetch_cmd env state))"
  by (simp add: executeGitCommand_def at_def split_ws_def trim_def is_ws_def)

lemma exec_merge_origin_text:
  "executeGitCommand env ''git merge origin/main'' state
     = map_option Inr (merge_cmd env [''git'', ''merge'', ''origin/main''] state)"
  by (simp add: executeGitCommand_def at_def split_ws_def trim_def is_ws_def)

section \<open>push\<close>

lemma exec_push:
  assumes "split_ws (trim command) = ''git'' # ''push'' # rest"
  shows "executeGitCommand env command state
           = map_option Inr (push_cmd (''git'' # ''push'' # rest) state)"
  using assms by (simp add: executeGitCommand_def at_def)

lemma find_filter_append:
  assumes "P y"
  shows "find P (filter (\<lambda>x. \<not> P x) xs @ [y]) = Some y"
  using assms by (induction xs) auto

text \<open>
  Claim C5. Let the command be \<open>git push ...\<close>, HEAD attached to an existing
  branch \<open>b\<close> with tip \<open>tip\<close>, and let \<open>origin/b\<close> be the remote-tracking
  name. If \<open>origin/b\<close> exists, \<open>tip\<close> is not a descendant of its tip (which
  cannot be reached from \<open>tip\<close> along parent edges) and the two tips differ,
  the engine returns a failure and the snapshot unchanged.
  In every other case (also when \<open>origin/b\<close> is absent) it returns a
  success, and the new snapshot differs in the branch list only: every old
  \<open>origin/b\<close> entry is removed and one entry \<open>origin/b\<close> at \<open>tip\<close> is
  appended, so that \<open>origin/b\<close> now reads \<open>tip\<close>.
\<close>

theorem push_behaviour:
  assumes "split_ws (trim command) = ''git'' # ''push'' # rest"
    and "head state = branch b"
    and "find (\<lambda>x. Branch.name x = b) (branches state) = Some br"
  shows
    "(let remoteName = ''origin/'' @ show_js b; tip = Branch.commitId br;
          rejected = (case find (\<lambda>x. Branch.name x = Some remoteName) (branches state) of
                        None \<Rightarrow> False
                      | Some rb \<Rightarrow> \<not> ancestor state (Branch.commitId rb) tip
                                   \<and> Branch.commitId rb \<noteq> tip)
      in if rejected then
           (\<exists>text. executeGitCommand env command state
                      = Some (Inr \<lparr>newState = state, output = text, success = False\<rparr>))
         else
           (\<exists>text. executeGitCommand env command state
                      = Some (Inr \<lparr>newState = state\<lparr>branches :=
                                       filter (\<lambda>x. Branch.name x \<noteq> Some remoteName) (branches state)
                                         @ [\<lparr>Branch.name = Some remoteName, commitId = tip\<rparr>]\<rparr>,
                                     output = text, success = True\<rparr>))
           \<and> find (\<lambda>x. Branch.name x = Some remoteName)
                 (filter (\<lambda>x. Branch.name x \<noteq> Some remoteName) (branches state)
                    @ [\<lparr>Branch.name = Some remoteName, commitId = tip\<rparr>])
               = Some \<lparr>Branch.name = Some remoteName, commitId = tip\<rparr>)"
proof -
  let ?remote = "''origin/'' @ show_js b"
  have hb: "isBranch (head state)" "headRef state = b"
    using assms(2) by (simp_all add: isBranch_def headRef_def)
  have fnd: "find (\<lambda>x. Branch.name x = Some ?remote)
                 (filter (\<lambda>x. Branch.name x \<noteq> Some ?remote) (branches state)
                    @ [\<lparr>Branch.name = Some ?remote, commitId = Branch.commitId br\<rparr>])
               = Some \<lparr>Branch.name = Some ?remote, commitId = Branch.commitId br\<rparr>"
    by (rule find_filter_append) simp
  show ?thesis
  proof (cases "find (\<lambda>x. Branch.name x = Some ?remote) (branches state)")
    case None
    then show ?thesis
      using fnd hb assms(3)
      unfolding exec_push[OF assms(1)] push_cmd_def Let_def
      by simp
  next
    case (Some rb)
    show ?thesis
      using fnd hb assms(3) Some
      unfolding exec_push[OF assms(1)] push_cmd_def Let_def isAncestor_ancestor
      by (cases "ancestor state (Branch.commitId rb) (Branch.commitId br)";
          cases "Branch.commitId rb = Branch.commitId br")
         (simp_all add: ancestor_refl)
  qed
qed

theorem push_behaviour_witness:
  "split_ws (trim ''git push origin main'') = [''git'', ''push'', ''origin'', ''main'']
   \<and> find (\<lambda>x. Branch.name x = Some ''origin/main'') (branches diverged_state)
       = Some \<lparr>Branch.name = Some ''origin/main'', commitId = ''bbb''\<rparr>
   \<and> \<not> ancestor diverged_state ''bbb'' ''ccc''
   \<and> (\<exists>msg. executeGitCommand example_env ''git push origin main'' diverged_state
                = Some (Inr \<lparr>newState = diverged_state, output = msg, success = False\<rparr>))
   \<and> find (\<lambda>x. Branch.name x = Some ''origin/main'') (branches behind_state)
       = Some \<lparr>Branch.name = Some ''origin/main'', commitId = ''init''\<rparr>
   \<and> ancestor behind_state ''init'' ''aaa''
   \<and> (\<exists>msg. executeGitCommand example_env ''git push origin main'' behind_state
                = Some (Inr \<lparr>newState = behind_state\<lparr>branches :=
                                 [\<lparr>Branch.name = Some ''main'', commitId = ''aaa''\<rparr>,
                                  \<lparr>Branch.name = Some ''feature'', commitId = ''ccc''\<rparr>,
                                  \<lparr>Branch.name = Some ''origin/main'', commitId = ''aaa''\<rparr>]\<rparr>,
                              output = msg, success = True\<rparr>))
   \<and> find (\<lambda>x. Branch.name x = Some ''origin/main'') (branches prefix_state) = None
   \<and> (\<exists>msg. executeGitCommand example_env ''git push origin main'' prefix_state
                = Some (Inr \<lparr>newState = prefix_state\<lparr>branches :=
                                 [\<lparr>Branch.name = Some ''main'', commitId = ''abc''\<rparr>,
                                  \<lparr>Branch.name = Some ''origin/main'', commitId = ''abc''\<rparr>]\<rparr>,
                              output = msg, success = True\<rparr>))"
proof -
  have p: "split_ws (trim ''git push origin main'') = ''git'' # ''push'' # [''origin'', ''main'']"
    by (simp add: split_ws_def trim_def is_ws_def)
  have h: "head diverged_state = branch (Some ''main'')"
    and hb: "head behind_state = branch (Some ''main'')"
    and hp: "head prefix_state = branch (Some ''main'')"
    by (simp_all add: diverged_state_def behind_state_def prefix_state_def)
  have f: "find (\<lambda>x. Branch.name x = Some ''main'') (branches diverged_state)
             = Some \<lparr>Branch.name = Some ''main'', commitId = ''ccc''\<rparr>"
    and fb: "find (\<lambda>x. Branch.name x = Some ''main'') (branches behind_state)
             = Some \<lparr>Branch.name = Some ''main'', commitId = ''aaa''\<rparr>"
    and fp: "find (\<lambda>x. Branch.name x = Some ''main'') (branches prefix_state)
             = Some \<lparr>Branch.name = Some ''main'', commitId = ''abc''\<rparr>"
    by (simp_all add: diverged_state_def behind_state_def prefix_state_def)
  have o: "find (\<lambda>x. Branch.name x = Some ''origin/main'') (branches diverged_state)
             = Some \<lparr>Branch.name = Some ''origin/main'', commitId = ''bbb''\<rparr>"
    and ob: "find (\<lambda>x. Branch.name x = Some ''origin/main'') (branches behind_state)
             = Some \<lparr>Branch.name = Some ''origin/main'', commitId = ''init''\<rparr>"
    and op: "find (\<lambda>x. Branch.name x = Some ''origin/main'') (branches prefix_state) = None"
    by (simp_all add: diverged_state_def behind_state_def prefix_state_def)
  have "isAncestor diverged_state ''bbb'' ''ccc'' = Some False"
    by (simp add: isAncestor_def isAncestor_loop.simps diverged_state_def pushParent_def)
  then have a: "\<not> ancestor diverged_state ''bbb'' ''ccc''"
    by (simp add: isAncestor_ancestor)
  have "isAncestor behind_state ''init'' ''aaa'' = Some True"
    by (simp add: isAncestor_def isAncestor_loop.simps diverged_state_def behind_state_def
          pushParent_def)
  then have ab: "ancestor behind_state ''init'' ''aaa''"
    by (simp add: isAncestor_ancestor)
  have e: "\<exists>msg. executeGitCommand example_env ''git push origin main'' diverged_state
                = Some (Inr \<lparr>newState = diverged_state, output = msg, success = False\<rparr>)"
    using push_behaviour[OF p h f, of example_env] o a
    by (simp add: show_js_def Let_def)
  have eb: "\<exists>msg. executeGitCommand example_env ''git push origin main'' behind_state
                = Some (Inr \<lparr>newState = behind_state\<lparr>branches :=
                                 [\<lparr>Branch.name = Some ''main'', commitId = ''aaa''\<rparr>,
                                  \<lparr>Branch.name = Some ''feature'', commitId = ''ccc''\<rparr>,
                                  \<lparr>Branch.name = Some ''origin/main'', commitId = ''aaa''\<rparr>]\<rparr>,
                              output = msg, success = True\<rparr>)"
    using push_behaviour[OF p hb fb, of example_env] ob ab
    by (simp add: show_js_def Let_def behind_state_def)
  have ep: "\<exists>msg. executeGitCommand example_env ''git push origin main'' prefix_state
                = Some (Inr \<lparr>newState = prefix_state\<lparr>branches :=
                                 [\<lparr>Branch.name = Some ''main'', commitId = ''abc''\<rparr>,
                                  \<lparr>Branch.name = Some ''origin/main'', commitId = ''abc''\<rparr>]\<rparr>,
                              output = msg, success = True\<rparr>)"
    using push_behaviour[OF p hp fp, of example_env] op
    by (simp add: show_js_def Let_def prefix_state_def)
  from p o a e ob ab eb op ep show ?thesis
    by simp
qed

section \<open>branch -M\<close>

lemma exec_branch:
  assumes "split_ws (trim command) = ''git'' # ''branch'' # rest"
  shows "executeGitCommand env command state
           = Some (Inr (branch_cmd (''git'' # ''branch'' # rest) state))"
  using assms by (simp add: executeGitCommand_def at_def)

lemma count_renamed:
  assumes "a \<noteq> n"
  shows "length (filter (\<lambda>x. Branch.name x = n)
                   (map (\<lambda>x. if Branch.name x = a then x\<lparr>Branch.name := n\<rparr> else x) bs))
           = length (filter (\<lambda>x. Branch.name x = a) bs)
             + length (filter (\<lambda>x. Branch.name x = n) bs)"
  using assms by (induction bs) auto

lemma filter_nonempty_of_find:
  assumes "find P xs \<noteq> None"
  shows "1 \<le> length (filter P xs)"
  using assms by (induction xs) (auto split: if_splits)

text \<open>
  Claim C10. Let the command read \<open>git branch -M n\<close>, with HEAD attached to an
  existing branch \<open>a\<close> and another branch already named \<open>n\<close>. The engine
  makes no check of the new name: it returns a success, every branch named
  \<open>a\<close> is renamed to \<open>n\<close>, HEAD is attached to \<open>n\<close>, and the new branch
  list holds at least two branches named \<open>n\<close>.
\<close>

theorem rename_duplicates_branch:
  assumes "split_ws (trim command) = ''git'' # ''branch'' # ''-M'' # n # rest"
    and "head state = branch a"
    and "a \<noteq> Some n"
    and "find (\<lambda>x. Branch.name x = a) (branches state) \<noteq> None"
    and "find (\<lambda>x. Branch.name x = Some n) (branches state) \<noteq> None"
  shows
    "(\<exists>text. executeGitCommand env command state
        = Some (Inr \<lparr>newState = state\<lparr>branches :=
                         map (\<lambda>x. if Branch.name x = a then x\<lparr>Branch.name := Some n\<rparr> else x)
                             (branches state),
                       head := branch (Some n)\<rparr>,
                     output = text, success = True\<rparr>))
     \<and> 2 \<le> length (filter (\<lambda>x. Branch.name x = Some n)
                  (map (\<lambda>x. if Branch.name x = a then x\<lparr>Branch.name := Some n\<rparr> else x)
                       (branches state)))"
proof
  have "isBranch (head state)" "headRef state = a"
    using assms(2) by (simp_all add: isBranch_def headRef_def)
  then show "\<exists>text. executeGitCommand env command state
        = Some (Inr \<lparr>newState = state\<lparr>branches :=
                         map (\<lambda>x. if Branch.name x = a then x\<lparr>Branch.name := Some n\<rparr> else x)
                             (branches state),
                       head := branch (Some n)\<rparr>,
                     output = text, success = True\<rparr>)"
    unfolding exec_branch[OF assms(1)] branch_cmd_def Let_def
    by (simp add: at_def)
next
  show "2 \<le> length (filter (\<lambda>x. Branch.name x = Some n)
                  (map (\<lambda>x. if Branch.name x = a then x\<lparr>Branch.name := Some n\<rparr> else x)
                       (branches state)))"
    using count_renamed[OF assms(3), of "branches state"]
      filter_nonempty_of_find[OF assms(4)] filter_nonempty_of_find[OF assms(5)]
    by linarith
qed

theorem rename_duplicates_branch_witness:
  "split_ws (trim ''git branch -M feature'') = [''git'', ''branch'', ''-M'', ''feature'']
   \<and> head diverged_state = branch (Some ''main'')
   \<and> find (\<lambda>x. Branch.name x = Some ''main'') (branches diverged_state) \<noteq> None
   \<and> find (\<lambda>x. Branch.name x = Some ''feature'') (branches diverged_state) \<noteq> None
   \<and> (\<exists>text. executeGitCommand example_env ''git branch -M feature'' diverged_state
        = Some (Inr \<lparr>newState = diverged_state\<lparr>branches :=
                         [\<lparr>Branch.name = Some ''feature'', commitId = ''ccc''\<rparr>,
                          \<lparr>Branch.name = Some ''feature'', commitId = ''bbb''\<rparr>,
                          \<lparr>Branch.name = Some ''origin/main'', commitId = ''bbb''\<rparr>],
                       head := branch (Some ''feature'')\<rparr>,
                     output = text, success = True\<rparr>))"
proof -
  have p: "split_ws (trim ''git branch -M feature'') = ''git'' # ''branch'' # ''-M'' # ''feature'' # []"
    by (simp add: split_ws_def trim_def is_ws_def)
  have h: "head diverged_state = branch (Some ''main'')"
    by (simp add: diverged_state_def)
  have d: "Some ''main'' \<noteq> Some ''feature''"
    by simp
  have f: "find (\<lambda>x. Branch.name x = Some ''main'') (branches diverged_state) \<noteq> None"
    by (simp add: diverged_state_def)
  have g: "find (\<lambda>x. Branch.name x = Some ''feature'') (branches diverged_state) \<noteq> None"
    by (simp add: diverged_state_def)
  have m: "map (\<lambda>x. if Branch.name x = Some ''main'' then x\<lparr>Branch.name := Some ''feature''\<rparr> else x)
               (branches diverged_state)
           = [\<lparr>Branch.name = Some ''feature'', commitId = ''ccc''\<rparr>,
              \<lparr>Branch.name = Some ''feature'', commitId = ''bbb''\<rparr>,
              \<lparr>Branch.name = Some ''origin/main'', commitId = ''bbb''\<rparr>]"
    by (simp add: diverged_state_def)
  from rename_duplicates_branch[OF p h d f g, of example_env]
  have e: "\<exists>text. executeGitCommand example_env ''git branch -M feature'' diverged_state
        = Some (Inr \<lparr>newState = diverged_state\<lparr>branches :=
                         [\<lparr>Branch.name = Some ''feature'', commitId = ''ccc''\<rparr>,
                          \<lparr>Branch.name = Some ''feature'', commitId = ''bbb''\<rparr>,
                          \<lparr>Branch.name = Some ''origin/main'', commitId = ''bbb''\<rparr>],
                       head := branch (Some ''feature'')\<rparr>,
                     output = text, success = True\<rparr>)"
    unfolding m by blast
  from p h f g e show ?thesis
    by simp
qed

section \<open>tag\<close>

text \<open>
  Claim C7 at the command \<open>git tag v1.0 init\<close> on \<open>diverged_state\<close>, where
  HEAD is on \<open>main\<close> at \<open>ccc\<close> and the argument \<open>init\<close> resolves to the
  root commit: the tag is created at \<open>ccc\<close>, the HEAD commit, not at the
  commit that the argument names.
\<close>

theorem tag_ignores_ref:
  "resolveRef diverged_state (Some ''init'') = Some ''init''
   \<and> getHeadCommitId diverged_state = ''ccc''
   \<and> executeGitCommand example_env ''git tag v1.0 init'' diverged_state
       = Some (Inr \<lparr>newState = diverged_state\<lparr>tags :=
                        [\<lparr>Tag.name = ''base'', commitId = ''init''\<rparr>,
                         \<lparr>Tag.name = ''v1.0'', commitId = ''ccc''\<rparr>]\<rparr>,
                    output = ''Created tag v1.0'', success = True\<rparr>)"
  by (simp add: executeGitCommand_def tag_cmd_def at_def split_ws_def trim_def is_ws_def
        resolveRef_def getHeadCommitId_def diverged_state_def startsWith_def)

section \<open>checkout and switch\<close>

lemma exec_checkout:
  assumes "split_ws (trim command) = ''git'' # verb # rest"
    and "verb = ''checkout'' \<or> verb = ''switch''"
  shows "executeGitCommand env command state
           = Some (Inr (checkout_cmd (''git'' # verb # rest) state))"
  using assms by (auto simp: executeGitCommand_def at_def)

text \<open>
  Claim C8, as the code has it. Let the command read \<open>git checkout t\<close> or
  \<open>git switch t\<close>, where \<open>t\<close> is not one of the options \<open>-b\<close> and \<open>-c\<close>.
  If some branch is named \<open>t\<close> (a name that starts with \<open>origin/\<close> is no
  exception), HEAD is attached to \<open>t\<close>. Only when no branch has that name
  and \<open>t\<close> resolves to a commit (through a tag, a commit id or \<open>HEAD\<close>) is
  HEAD detached, at that commit. Otherwise the command fails and the snapshot
  is unchanged.
\<close>

theorem checkout_attaches_any_branch:
  assumes "split_ws (trim command) = ''git'' # verb # t # rest"
    and "verb = ''checkout'' \<or> verb = ''switch''"
    and "t \<noteq> ''-b''" and "t \<noteq> ''-c''" and "t \<noteq> []"
  shows
    "\<exists>text. executeGitCommand env command state =
       Some (Inr
        (if find (\<lambda>x. Branch.name x = Some t) (branches state) \<noteq> None then
           \<lparr>newState = state\<lparr>head := branch (Some t)\<rparr>, output = text, success = True\<rparr>
         else
           (case resolveRef state (Some t) of
              None \<Rightarrow> \<lparr>newState = state, output = text, success = False\<rparr>
            | Some c \<Rightarrow>
                if c = [] then \<lparr>newState = state, output = text, success = False\<rparr>
                else \<lparr>newState = state\<lparr>head := commit c\<rparr>, output = text, success = True\<rparr>)))"
proof -
  have a2: "at (''git'' # verb # t # rest) 2 = Some t" by (simp add: at_def)
  show ?thesis
  proof (cases "find (\<lambda>x. Branch.name x = Some t) (branches state)")
    case (Some b)
    then have "Branch.name b = Some t"
      by (auto simp: find_Some_iff)
    with Some show ?thesis
      unfolding exec_checkout[OF assms(1,2)] checkout_cmd_def a2 Let_def
      using assms(3-5) by (simp add: falsy_def)
  next
    case None
    then show ?thesis
      unfolding exec_checkout[OF assms(1,2)] checkout_cmd_def a2 Let_def
      using assms(3-5)
      by (cases "resolveRef state (Some t)") (simp_all add: falsy_def show_js_def)
  qed
qed

theorem checkout_attaches_any_branch_witness:
  "split_ws (trim ''git checkout origin/main'') = [''git'', ''checkout'', ''origin/main'']
   \<and> find (\<lambda>x. Branch.name x = Some ''origin/main'') (branches diverged_state) \<noteq> None
   \<and> (\<exists>text. executeGitCommand example_env ''git checkout origin/main'' diverged_state
                = Some (Inr \<lparr>newState = diverged_state\<lparr>head := branch (Some ''origin/main'')\<rparr>,
                              output = text, success = True\<rparr>))"
proof -
  have p: "split_ws (trim ''git checkout origin/main'')
             = ''git'' # ''checkout'' # ''origin/main'' # []"
    by (simp add: split_ws_def trim_def is_ws_def)
  have f: "find (\<lambda>x. Branch.name x = Some ''origin/main'') (branches diverged_state) \<noteq> None"
    by (simp add: diverged_state_def)
  have e: "\<exists>text. executeGitCommand example_env ''git checkout origin/main'' diverged_state
                = Some (Inr \<lparr>newState = diverged_state\<lparr>head := branch (Some ''origin/main'')\<rparr>,
                              output = text, success = True\<rparr>)"
    using checkout_attaches_any_branch[OF p, where state = diverged_state and env = example_env] f
    by simp
  from p f e show ?thesis
    by simp
qed

text \<open>
  Claim C8 as stated fails. From the initial snapshot, \<open>git clone\<close> and then
  \<open>git checkout origin/main\<close> both succeed, and they leave HEAD attached to
  the branch \<open>origin/main\<close>.
\<close>

theorem checkout_remote_counterexample:
  "\<exists>r1 r2. executeGitCommand example_env ''git clone https://github.com/demo/repo''
               (INITIAL_STATE example_env) = Some (Inr r1)
           \<and> success r1
           \<and> executeGitCommand example_env ''git checkout origin/main'' (newState r1)
               = Some (Inr r2)
           \<and> success r2
           \<and> head (newState r2) = branch (Some ''origin/main'')
           \<and> startsWith ''origin/main'' ''origin/''"
  by (simp add: executeGitCommand_def clone_cmd_def checkout_cmd_def at_def split_ws_def
        trim_def is_ws_def falsy_def startsWith_def Let_def)

section \<open>Sequences of commands\<close>

text \<open>
  Claim C1 at the text \<open>git branch dev && git checkout nowhere\<close> on the
  initial snapshot. The first command succeeds and creates the branch
  \<open>dev\<close>; the second fails. The snapshot that \<open>handleCommand\<close> publishes
  holds the branch \<open>dev\<close>: it is the snapshot after the first command, not
  the one before the sequence, which is the one it hands to the history.
\<close>

theorem handleCommand_publishes_partial_state:
  "(\<exists>text. handleCommand (\<lambda>k. example_env) ''git branch dev && git checkout nowhere''
             (INITIAL_STATE example_env)
      = Some (Inr \<lparr>gitState = (INITIAL_STATE example_env)\<lparr>branches :=
                       [\<lparr>Branch.name = Some ''main'', commitId = ''init''\<rparr>,
                        \<lparr>Branch.name = Some ''dev'', commitId = ''init''\<rparr>]\<rparr>,
                   savedToHistory = Some (INITIAL_STATE example_env),
                   logEntry = Some (''error'', text)\<rparr>))
   \<and> (INITIAL_STATE example_env)\<lparr>branches :=
          [\<lparr>Branch.name = Some ''main'', commitId = ''init''\<rparr>,
           \<lparr>Branch.name = Some ''dev'', commitId = ''init''\<rparr>]\<rparr>
       \<noteq> INITIAL_STATE example_env"
  by (simp add: handleCommand_def split_amp_def executeGitCommand_def branch_cmd_def
        checkout_cmd_def at_def split_ws_def trim_def is_ws_def falsy_def Let_def
        resolveRef_def getHeadCommitId_def INITIAL_STATE_def startsWith_def failed_def)

section \<open>Errors\<close>

subsection \<open>A failure returns the snapshot it was given\<close>

lemma remote_fail:
  "\<not> success (remote_cmd parts state) \<Longrightarrow> newState (remote_cmd parts state) = state"
  by (simp add: remote_cmd_def split: if_splits)

lemma fetch_fail:
  "\<not> success (fetch_cmd env state) \<Longrightarrow> newState (fetch_cmd env state) = state"
  by (simp add: fetch_cmd_def Let_def split: option.splits)

lemma commit_fail:
  "\<not> success (commit_cmd env parts state) \<Longrightarrow> newState (commit_cmd env parts state) = state"
  by (simp add: commit_cmd_def Let_def split: option.splits if_splits Head.splits prod.splits)

lemma branch_fail:
  "\<not> success (branch_cmd parts state) \<Longrightarrow> newState (branch_cmd parts state) = state"
  by (simp add: branch_cmd_def Let_def split: if_splits)

lemma checkout_fail:
  "\<not> success (checkout_cmd parts state) \<Longrightarrow> newState (checkout_cmd parts state) = state"
  unfolding checkout_cmd_def Let_def
  by (cases "at parts 2 = Some ''-b'' \<or> at parts 2 = Some ''-c''")
     (simp_all split: if_splits option.splits)

lemma revert_fail:
  "\<not> success (revert_cmd env parts state) \<Longrightarrow> newState (revert_cmd env parts state) = state"
  by (simp add: revert_cmd_def Let_def split: if_splits)

lemma cherry_pick_fail:
  "\<not> success (cherry_pick_cmd env parts state)
     \<Longrightarrow> newState (cherry_pick_cmd env parts state) = state"
  by (simp add: cherry_pick_cmd_def Let_def split: if_splits option.splits)

lemma tag_fail:
  "\<not> success (tag_cmd parts state) \<Longrightarrow> newState (tag_cmd parts state) = state"
  by (simp add: tag_cmd_def split: if_splits option.splits)

lemma merge_fail:
  "merge_cmd env parts state = Some res \<Longrightarrow> \<not> success res \<Longrightarrow> newState res = state"
  unfolding merge_cmd_def Let_def
  by (auto split: if_splits option.splits)

lemma push_fail:
  "push_cmd parts state = Some res \<Longrightarrow> \<not> success res \<Longrightarrow> newState res = state"
  unfolding push_cmd_def Let_def
  by (auto split: if_splits option.splits)

lemma pull_fail:
  "pull_cmd env state = Some res \<Longrightarrow> \<not> success res \<Longrightarrow> newState res = state"
  unfolding pull_cmd_def Let_def
  using fetch_fail[of env state]
  by (auto split: if_splits option.splits)

lemma rebase_fail:
  "rebase_cmd env parts state = Some res \<Longrightarrow> \<not> success res \<Longrightarrow> newState res = state"
  unfolding rebase_cmd_def Let_def
  by (auto split: if_splits option.splits prod.splits)

lemma reset_fail:
  "reset_cmd parts state = Inr res \<Longrightarrow> \<not> success res \<Longrightarrow> newState res = state"
  unfolding reset_cmd_def Let_def
  by (auto split: if_splits option.splits prod.splits)

lemma always_succeed:
  "success (init_cmd env)" "success (log_cmd env state)" "success (add_cmd state)"
  "success (clone_cmd env)"
  by (simp_all add: init_cmd_def log_cmd_def add_cmd_def clone_cmd_def Let_def)

lemma executeGitCommand_fail:
  assumes "executeGitCommand env command state = Some (Inr res)" and "\<not> success res"
  shows "newState res = state"
  using assms
  unfolding executeGitCommand_def Let_def
  by (auto simp: failed_def always_succeed
        remote_fail fetch_fail commit_fail branch_fail checkout_fail revert_fail
        cherry_pick_fail tag_fail
      dest: merge_fail push_fail pull_fail rebase_fail reset_fail
      split: if_splits)

subsection \<open>An exception\<close>

text \<open>
  Claim C6 at the command \<open>git reset --hard\<close> on the initial snapshot.
  Whenever the engine returns a failure, the snapshot it returns is the one
  it was given (\<open>executeGitCommand_fail\<close>). But here the engine does not
  return a result: it raises a \<open>TypeError\<close>.
\<close>

theorem reset_without_target_throws:
  "executeGitCommand example_env ''git reset --hard'' (INITIAL_STATE example_env)
     = Some (Inl TypeError)"
  by (simp add: executeGitCommand_def reset_cmd_def at_def split_ws_def trim_def is_ws_def
        falsy_def Let_def resolveRef_def INITIAL_STATE_def isBranch_def)

section \<open>rebase\<close>

subsection \<open>The two walks end on a snapshot without first-parent cycles\<close>




subsection \<open>The copies\<close>





lemma secondParent_copies: "c \<in> set (copies env state k pid cs) \<Longrightarrow> secondParentId c = None"
  by (induction cs arbitrary: k pid) auto








subsection \<open>The handler\<close>




subsection \<open>Where the claim as stated fails\<close>






end
